theory Spec2Isabelle
  imports Complex_Main
begin

section \<open>Values shared by the view classes\<close>

text \<open>
  Sheet coordinates and array entries are Python floats; they are modelled as exact
  reals, so the arithmetic below is the arithmetic of the source without rounding.
  Every exception the modelled code can raise is a value of \<open>error\<close>, and a
  function that can raise returns \<open>error + 'a\<close> with \<open>Inl\<close> for the exception.
\<close>

datatype error =
    ZeroDivisionError
  | ValueError
  | IndexError
  | TypeError
  | AttributeError
  | KeyError
  | OverflowError
  | NotImplementedError
  | AssertionError string
  | Exception string

type_synonym attrdict = "(string \<times> string) list"

text \<open>
  Modelled from the spec: \<open>BoundingBox\<close> (module \<open>boundingregion\<close>), "a rectangle in
  continuous coordinates (left, bottom, right, top)". \<open>lbrt\<close> reads the four edges;
  \<open>BoundingBox_points\<close> is the rectangle spanned by two corner points, and
  \<open>contains\<close> is membership of a point, edges included.
\<close>

datatype BoundingBox = BoundingBox (lbrt: "real \<times> real \<times> real \<times> real")

definition BoundingBox_points :: "real \<times> real \<Rightarrow> real \<times> real \<Rightarrow> BoundingBox" where
  "BoundingBox_points p q =
     BoundingBox (min (fst p) (fst q), min (snd p) (snd q),
                  max (fst p) (fst q), max (snd p) (snd q))"

definition contains :: "BoundingBox \<Rightarrow> real \<Rightarrow> real \<Rightarrow> bool" where
  "contains bb x y =
     (case lbrt bb of (l, b, r, t) \<Rightarrow> l \<le> x \<and> x \<le> r \<and> b \<le> y \<and> y \<le> t)"

definition nondegenerate :: "BoundingBox \<Rightarrow> bool" where
  "nondegenerate bb = (case lbrt bb of (l, b, r, t) \<Rightarrow> l < r \<and> b < t)"

text \<open>
  A numpy array. \<open>Array2 rows cols cells\<close> is a 2-D array of shape \<open>(rows, cols)\<close>
  whose entries are listed row by row; \<open>ArrayN shape\<close> stands for an array of
  any other rank, of which the view code only reads the shape.
\<close>

datatype ndarray =
    Array2 nat nat "real list list"
  | ArrayN "nat list"

fun shape :: "ndarray \<Rightarrow> nat list" where
  "shape (Array2 m n cells) = [m, n]"
| "shape (ArrayN s) = s"

definition wf_array :: "ndarray \<Rightarrow> bool" where
  "wf_array a =
     (case a of
        Array2 m n cells \<Rightarrow> length cells = m \<and> list_all (\<lambda>row. length row = n) cells
      | ArrayN s \<Rightarrow> length s \<noteq> 2)"

section \<open>views.py: SheetLayer, SheetView\<close>

record SheetLayer =
  bounds :: BoundingBox
  roi_bounds :: BoundingBox
  title :: "string option"
  style :: attrdict
  metadata :: attrdict

record SheetView = SheetLayer +
  data :: ndarray
  cyclic_range :: "real option"
  xdensity :: real
  ydensity :: real

text \<open>The keyword arguments of the constructors; \<open>None\<close> is an argument not given.\<close>

record kwargs =
  kw_roi_bounds :: "BoundingBox option"
  kw_title :: "string option"
  kw_style :: "attrdict option"
  kw_metadata :: "attrdict option"
  kw_cyclic_range :: "real option"

definition no_kwargs :: kwargs where
  "no_kwargs = \<lparr>kw_roi_bounds = None, kw_title = None, kw_style = None,
                 kw_metadata = None, kw_cyclic_range = None\<rparr>"

text \<open>
  \<open>SheetLayer.__init__\<close>: the parameters take their keyword values or their
  defaults (an empty \<open>AttrDict\<close> for style and metadata), and a missing region of
  interest becomes the bounds.
\<close>

definition SheetLayer_init :: "BoundingBox \<Rightarrow> kwargs \<Rightarrow> SheetLayer" where
  "SheetLayer_init bnds kw =
     \<lparr>bounds = bnds,
      roi_bounds = (case kw_roi_bounds kw of None \<Rightarrow> bnds | Some roi \<Rightarrow> roi),
      title = kw_title kw,
      style = (case kw_style kw of None \<Rightarrow> [] | Some s \<Rightarrow> s),
      metadata = (case kw_metadata kw of None \<Rightarrow> [] | Some m \<Rightarrow> m)\<rparr>"

text \<open>
  Modelled from the spec: \<open>SheetCoordinateSystem.__init__(bounds, xdensity, ydensity)\<close>
  (module \<open>sheetcoords\<close>): the array view "carries pixel density (derived from
  bounds and array shape)", so the coordinate system keeps the two densities it is given.
\<close>

definition SheetCoordinateSystem_init ::
  "SheetLayer \<Rightarrow> ndarray \<Rightarrow> real option \<Rightarrow> real \<Rightarrow> real \<Rightarrow> SheetView" where
  "SheetCoordinateSystem_init layer d cr xd yd =
     SheetLayer.extend layer
       \<lparr>data = d, cyclic_range = cr, xdensity = xd, ydensity = yd\<rparr>"

text \<open>
  \<open>SheetView.__init__\<close>. \<open>(dim1, dim2) = data.shape\<close> raises ValueError unless the
  array is 2-D, and each division raises ZeroDivisionError on a zero divisor.
\<close>

definition SheetView_init :: "ndarray option \<Rightarrow> BoundingBox \<Rightarrow> kwargs \<Rightarrow> error + SheetView" where
  "SheetView_init data0 bnds kw =
     (let d = (case data0 of None \<Rightarrow> Array2 1 1 [[0]] | Some a \<Rightarrow> a)
      in case lbrt bnds of (l, b, r, t) \<Rightarrow>
         (case d of
            ArrayN s \<Rightarrow> Inl ValueError
          | Array2 dim1 dim2 cells \<Rightarrow>
              if r - l = 0 then Inl ZeroDivisionError
              else if t - b = 0 then Inl ZeroDivisionError
              else Inr (SheetCoordinateSystem_init (SheetLayer_init bnds kw) d
                          (kw_cyclic_range kw)
                          (real dim1 / (r - l)) (real dim2 / (t - b)))))"

section \<open>views.py: SheetView.__getitem__\<close>

text \<open>
  Modelled from the spec: \<open>SheetCoordinateSystem.sheet2matrixidx\<close> and
  \<open>Slice(bounds, scs).submatrix(data)\<close> (module \<open>sheetcoords\<close>): the coordinate
  system "maps continuous bounding-region coordinates to discrete array indices", with
  "point\<rightarrow>index conversion (nearest covered cell, deterministic rounding)" and
  "region\<rightarrow>sub-array extraction (slice semantics clamp the requested bounds to the
  parent's extent)". A coordinate system knows its bounds and its two densities and not
  the array: a point is scaled by the densities from the top-left corner, rows growing
  downwards; a region's edges are rounded to the nearest cell boundary; the sub-array is
  the numpy slice \<open>data[r1:r2, c1:c2]\<close>, which clamps its indices to the array.
\<close>

definition sheet2matrix :: "SheetView \<Rightarrow> real \<Rightarrow> real \<Rightarrow> real \<times> real" where
  "sheet2matrix scs x y =
     (case lbrt (bounds scs) of (l, b, r, t) \<Rightarrow>
        ((t - y) * ydensity scs, (x - l) * xdensity scs))"

definition sheet2matrixidx :: "SheetView \<Rightarrow> real \<Rightarrow> real \<Rightarrow> int \<times> int" where
  "sheet2matrixidx scs x y =
     (case sheet2matrix scs x y of (row, col) \<Rightarrow> (\<lfloor>row\<rfloor>, \<lfloor>col\<rfloor>))"

definition Slice_new :: "BoundingBox \<Rightarrow> SheetView \<Rightarrow> int \<times> int \<times> int \<times> int" where
  "Slice_new bb scs =
     (case lbrt bb of (l, b, r, t) \<Rightarrow>
        (case sheet2matrix scs l t of (t_m, l_m) \<Rightarrow>
           (case sheet2matrix scs r b of (b_m, r_m) \<Rightarrow>
              (\<lceil>t_m - 1 / 2\<rceil>, \<lfloor>b_m + 1 / 2\<rfloor>, \<lceil>l_m - 1 / 2\<rceil>, \<lfloor>r_m + 1 / 2\<rfloor>))))"

text \<open>
  numpy's basic slicing \<open>xs[i:j]\<close>: a negative index counts from the end, and both
  ends are clamped to the length.
\<close>

definition norm_index :: "nat \<Rightarrow> int \<Rightarrow> nat" where
  "norm_index n i = nat (if i < 0 then max (i + int n) 0 else min i (int n))"

definition py_slice :: "int \<Rightarrow> int \<Rightarrow> 'a list \<Rightarrow> 'a list" where
  "py_slice i j xs =
     (let s = norm_index (length xs) i; e = norm_index (length xs) j
      in take (e - s) (drop s xs))"

definition slice_len :: "int \<Rightarrow> int \<Rightarrow> nat \<Rightarrow> nat" where
  "slice_len i j n = norm_index n j - norm_index n i"

fun submatrix :: "int \<times> int \<times> int \<times> int \<Rightarrow> ndarray \<Rightarrow> error + ndarray" where
  "submatrix (r1, r2, c1, c2) (Array2 m n cells) =
     Inr (Array2 (slice_len r1 r2 m) (slice_len c1 c2 n)
            (map (py_slice c1 c2) (py_slice r1 r2 cells)))"
| "submatrix (r1, r2, c1, c2) (ArrayN s) =
     (case s of
        d1 # d2 # rest \<Rightarrow> Inr (ArrayN (slice_len r1 r2 d1 # slice_len c1 c2 d2 # rest))
      | _ \<Rightarrow> Inl IndexError)"

text \<open>numpy's \<open>data[row, col]\<close>: IndexError outside the array, negative indices wrap once.\<close>

definition py_index :: "'a list \<Rightarrow> int \<Rightarrow> error + 'a" where
  "py_index xs i =
     (if 0 \<le> i \<and> i < int (length xs) then Inr (xs ! nat i)
      else if i < 0 \<and> - int (length xs) \<le> i then Inr (xs ! nat (i + int (length xs)))
      else Inl IndexError)"

fun index2 :: "ndarray \<Rightarrow> int \<times> int \<Rightarrow> error + real" where
  "index2 (Array2 m n cells) (row, col) =
     (case py_index cells row of
        Inl e \<Rightarrow> Inl e
      | Inr cs \<Rightarrow> py_index cs col)"
| "index2 (ArrayN s) (row, col) = Inl IndexError"

text \<open>
  What a view is indexed with: one object or a tuple of objects, each a number or a
  slice \<open>start:stop\<close> whose ends may be omitted.
\<close>

datatype index = Coord real | PySlice "real option" "real option"

datatype coords = Single index | Tuple "index list"

datatype item = ItemView SheetView | ItemValue real

fun is_slice :: "index \<Rightarrow> bool" where
  "is_slice (PySlice a b) = True"
| "is_slice (Coord x) = False"

text \<open>
  \<open>SheetView.__getitem__\<close>. The empty tuple and the slice \<open>:\<close> return the view
  itself; any other single object is not iterable (TypeError). A tuple without slices
  samples the array at the matrix index of the point, which takes exactly two
  coordinates; a tuple of slices must unpack into an x- and a y-range (ValueError
  otherwise) and gives a new view of the clamped region, built by
  \<open>SheetView.__init__\<close> with the cyclic range, style and metadata of this one; a
  mixed tuple raises IndexError.
\<close>

fun getitem :: "SheetView \<Rightarrow> coords \<Rightarrow> error + item" where
  "getitem self (Tuple []) = Inr (ItemView self)"
| "getitem self (Single (PySlice None None)) = Inr (ItemView self)"
| "getitem self (Single i) = Inl TypeError"
| "getitem self (Tuple cs) =
     (if \<not> list_ex is_slice cs then
        (case cs of
           [Coord x, Coord y] \<Rightarrow>
             (case index2 (data self) (sheet2matrixidx self x y) of
                Inl e \<Rightarrow> Inl e
              | Inr v \<Rightarrow> Inr (ItemValue v))
         | _ \<Rightarrow> Inl TypeError)
      else if list_all is_slice cs then
        (case cs of
           [PySlice xstart0 xstop, PySlice ystart0 ystop] \<Rightarrow>
             (case lbrt (bounds self) of (l, b, r, t) \<Rightarrow>
                (let xstart = (case xstart0 of None \<Rightarrow> l | Some a \<Rightarrow> max l a);
                     xend = (case xstop of None \<Rightarrow> r | Some a \<Rightarrow> min r a);
                     ystart = (case ystart0 of None \<Rightarrow> b | Some a \<Rightarrow> max b a);
                     yend = (case ystop of None \<Rightarrow> t | Some a \<Rightarrow> min t a);
                     bnds = BoundingBox_points (xstart, ystart) (xend, yend)
                 in case submatrix (Slice_new bnds self) (data self) of
                      Inl e \<Rightarrow> Inl e
                    | Inr sub \<Rightarrow>
                        (case SheetView_init (Some sub) bnds
                                (no_kwargs\<lparr>kw_cyclic_range := cyclic_range self,
                                            kw_style := Some (style self),
                                            kw_metadata := Some (metadata self)\<rparr>) of
                           Inl e \<Rightarrow> Inl e
                         | Inr v \<Rightarrow> Inr (ItemView v))))
         | _ \<Rightarrow> Inl ValueError)
      else Inl IndexError)"

section \<open>views.py: SheetOverlay\<close>

text \<open>
  The layers an overlay or a stack can hold. An overlay keeps its layers in
  \<open>self.data\<close>, here the list of the \<open>Overlay\<close> constructor.
\<close>

datatype layer =
    View SheetView
  | Points "(real \<times> real) list" SheetLayer
  | Contours "(real \<times> real) list list" SheetLayer
  | Overlay "layer list" SheetLayer

fun layer_bounds :: "layer \<Rightarrow> BoundingBox" where
  "layer_bounds (View v) = bounds v"
| "layer_bounds (Points ps base) = bounds base"
| "layer_bounds (Contours cs base) = bounds base"
| "layer_bounds (Overlay ls base) = bounds base"

text \<open>\<open>SheetOverlay.add\<close>; only an overlay has the method.\<close>

fun add :: "layer \<Rightarrow> layer \<Rightarrow> error + layer" where
  "add (Overlay ls base) l =
     (if lbrt (layer_bounds l) \<noteq> lbrt (bounds base)
      then Inl (Exception ''Layer must have same bounds as SheetOverlay'')
      else Inr (Overlay (ls @ [l]) base))"
| "add other l = Inl AttributeError"

text \<open>The loop of \<open>SheetOverlay.set\<close>, which stops at the first layer that raises.\<close>

fun add_all :: "layer \<Rightarrow> layer list \<Rightarrow> error + layer" where
  "add_all ov [] = Inr ov"
| "add_all ov (l # rest) =
     (case add ov l of Inl e \<Rightarrow> Inl e | Inr ov' \<Rightarrow> add_all ov' rest)"

fun set_layers :: "layer \<Rightarrow> layer list \<Rightarrow> error + layer" where
  "set_layers (Overlay ls base) new = add_all (Overlay [] base) new"
| "set_layers other new = Inl AttributeError"

definition SheetOverlay_init :: "layer list \<Rightarrow> BoundingBox \<Rightarrow> kwargs \<Rightarrow> error + layer" where
  "SheetOverlay_init overlays bnds kw =
     set_layers (Overlay [] (SheetLayer_init bnds kw)) overlays"

section \<open>views.py: SheetStack\<close>

text \<open>Python's \<open>type(layer)\<close>: the class of a layer.\<close>

datatype layer_class = SheetViewC | SheetPointsC | SheetContoursC | SheetOverlayC

fun type_of :: "layer \<Rightarrow> layer_class" where
  "type_of (View v) = SheetViewC"
| "type_of (Points ps base) = SheetPointsC"
| "type_of (Contours cs base) = SheetContoursC"
| "type_of (Overlay ls base) = SheetOverlayC"

text \<open>
  A stack: the \<open>bounds\<close> parameter (\<open>None\<close> until set) and the entries of the
  mapping, each a key with its layer.
\<close>

record 'k SheetStack =
  stack_bounds :: "BoundingBox option"
  entries :: "('k \<times> layer) list"

text \<open>
  Modelled from the spec: \<open>NdMapping\<close> (module \<open>ndmapping\<close>), "an ordered mapping
  from a tuple-valued key [...] to one layered view or overlay" that "exposes the
  most-recently-inserted ("top") entry". An entry stored under a key replaces the one
  the key had and becomes the last; \<open>top\<close> is the last entry. The base class's own
  \<open>_item_check\<close> raises a type-mismatch error unless the data is an instance of
  the mapping's \<open>data_type\<close>; for a stack that is \<open>SheetLayer\<close>, which every
  layer is.
\<close>

definition update_item :: "('k \<times> 'v) list \<Rightarrow> 'k \<Rightarrow> 'v \<Rightarrow> ('k \<times> 'v) list" where
  "update_item es k d = filter (\<lambda>e. fst e \<noteq> k) es @ [(k, d)]"

definition top_entry :: "'k SheetStack \<Rightarrow> layer option" where
  "top_entry s = (if entries s = [] then None else Some (snd (last (entries s))))"

definition NdMapping_item_check :: "('v \<Rightarrow> bool) \<Rightarrow> 'k \<Rightarrow> 'v \<Rightarrow> error option" where
  "NdMapping_item_check isinstance_data_type dim_vals d =
     (if isinstance_data_type d then None else Some TypeError)"

text \<open>The property \<open>SheetStack.type\<close>.\<close>

definition stack_type :: "'k SheetStack \<Rightarrow> layer_class option" where
  "stack_type s = (if length (entries s) = 0 then None else map_option type_of (top_entry s))"

text \<open>
  \<open>SheetStack._item_check\<close>. It may set the bounds of the stack before it raises, so
  it returns the stack together with the exception raised, if any.
\<close>

definition item_check :: "'k SheetStack \<Rightarrow> 'k \<Rightarrow> layer \<Rightarrow> 'k SheetStack \<times> error option" where
  "item_check self dim_vals d =
     (let self1 = (if stack_bounds self = None
                   then self\<lparr>stack_bounds := Some (layer_bounds d)\<rparr> else self)
      in if \<not> (Some (lbrt (layer_bounds d)) = map_option lbrt (stack_bounds self1))
         then (self1, Some (AssertionError ''All SheetLayer elements must have matching bounds.''))
         else if stack_type self1 \<noteq> None \<and> Some (type_of d) \<noteq> stack_type self1
         then (self1, Some (AssertionError ''SheetStack must only contain one type of SheetLayer.''))
         else (self1, NdMapping_item_check (\<lambda>x. True) dim_vals d))"

text \<open>
  Modelled from the spec: \<open>NdMapping._add_item\<close>, the one way an entry gets into
  the mapping: "checked on every add", it runs \<open>_item_check\<close> and stores the entry
  when the check has not raised.
\<close>

definition add_item :: "'k SheetStack \<Rightarrow> 'k \<Rightarrow> layer \<Rightarrow> 'k SheetStack \<times> error option" where
  "add_item self dim_vals d =
     (case item_check self dim_vals d of
        (self1, Some e) \<Rightarrow> (self1, Some e)
      | (self1, None) \<Rightarrow> (self1\<lparr>entries := update_item (entries self1) dim_vals d\<rparr>, None))"

text \<open>
  The states of a stack: an empty stack, with or without declared bounds, and whatever
  a sequence of insertions, failed ones included, makes of it.
\<close>

inductive reachable :: "'k SheetStack \<Rightarrow> bool" where
  init: "reachable \<lparr>stack_bounds = bnds, entries = []\<rparr>"
| step: "reachable s \<Longrightarrow> reachable (fst (add_item s k d))"

text \<open>The invariant: one bounds tuple and one class for all the entries.\<close>

definition homogeneous :: "'k SheetStack \<Rightarrow> bool" where
  "homogeneous s =
     (list_all (\<lambda>e. Some (lbrt (layer_bounds (snd e))) = map_option lbrt (stack_bounds s)) (entries s)
      \<and> list_all (\<lambda>e. list_all (\<lambda>e'. type_of (snd e) = type_of (snd e')) (entries s)) (entries s))"

section \<open>views.py: ProjectionGrid\<close>

text \<open>
  A grid of projections: an \<open>NdMapping\<close> keyed by sheet coordinates that is also a
  coordinate system. The record keeps the bounds, the entries of the mapping, and the
  messages passed to \<open>self.warning\<close>, oldest first.

  Modelled from the spec: \<open>SheetCoordinateSystem.closest_cell_center\<close> (module
  \<open>sheetcoords\<close>), the "index\<rightarrow>point conversion (cell center) for grid-snapping",
  and the \<open>data_type\<close> test of \<open>NdMapping._item_check\<close> (module \<open>ndmapping\<close>).
  Both are functions the grid is given; nothing is assumed of them.
\<close>

record 'd ProjectionGrid =
  grid_bounds :: BoundingBox
  closest_cell_center :: "real \<Rightarrow> real \<Rightarrow> real \<times> real"
  data_type :: "'d \<Rightarrow> bool"
  grid_entries :: "(real list \<times> 'd) list"
  warnings :: "string list"

definition warning :: "'d ProjectionGrid \<Rightarrow> string \<Rightarrow> 'd ProjectionGrid" where
  "warning self msg = self\<lparr>warnings := warnings self @ [msg]\<rparr>"

text \<open>
  \<open>_transform_value\<close> on a number: the snapped point of \<open>(0, val)\<close> or
  \<open>(val, 0)\<close>, of which component \<open>dim\<close> (here \<open>axis\<close>) is kept; a pair has components 0 and 1
  only.
\<close>

definition transform_value :: "'d ProjectionGrid \<Rightarrow> real \<Rightarrow> nat \<Rightarrow> error + real" where
  "transform_value self val axis =
     (let p = (if axis \<noteq> 0 then closest_cell_center self 0 val
               else closest_cell_center self val 0)
      in if axis = 0 then Inr (fst p) else if axis = 1 then Inr (snd p) else Inl IndexError)"

text \<open>\<open>_transform_indices\<close>: every coordinate with its position, left to right.\<close>

fun transform_from :: "'d ProjectionGrid \<Rightarrow> nat \<Rightarrow> real list \<Rightarrow> error + real list" where
  "transform_from self i [] = Inr []"
| "transform_from self i (c # cs) =
     (case transform_value self c i of
        Inl e \<Rightarrow> Inl e
      | Inr c' \<Rightarrow>
          (case transform_from self (Suc i) cs of
             Inl e \<Rightarrow> Inl e
           | Inr cs' \<Rightarrow> Inr (c' # cs')))"

definition transform_indices :: "'d ProjectionGrid \<Rightarrow> real list \<Rightarrow> error + real list" where
  "transform_indices self coords = transform_from self 0 coords"

text \<open>
  \<open>ProjectionGrid._add_item\<close>. \<open>contains(*coords)\<close> takes exactly two
  coordinates (TypeError otherwise). A coordinate outside the bounds is reported by a
  warning and the method goes on: item check, transformation of the coordinates, and
  the \<open>_add_item\<close> of \<open>NdMapping\<close>, which stores the data under the transformed key.
\<close>

definition ProjectionGrid_add_item ::
  "'d ProjectionGrid \<Rightarrow> real list \<Rightarrow> 'd \<Rightarrow> 'd ProjectionGrid \<times> error option" where
  "ProjectionGrid_add_item self coords d =
     (case coords of
        [x, y] \<Rightarrow>
          (let self1 = (if \<not> contains (grid_bounds self) x y
                        then warning self
                          ''Specified coordinate is outside grid bounds, data could not be added''
                        else self)
           in case NdMapping_item_check (data_type self1) coords d of
                Some e \<Rightarrow> (self1, Some e)
              | None \<Rightarrow>
                  (case transform_indices self1 coords of
                     Inl e \<Rightarrow> (self1, Some e)
                   | Inr coords' \<Rightarrow>
                       (self1\<lparr>grid_entries := update_item (grid_entries self1) coords' d\<rparr>,
                        None)))
      | _ \<Rightarrow> (self, Some TypeError))"

section \<open>plots.py: Plot and SheetViewPlot\<close>

text \<open>
  Modelled from the spec: the array view and the stack of the \<open>dataviews\<close> package
  (module \<open>sheetviews\<close>) as the plots read them. A view has its data, its title and its
  \<open>range\<close>; a stack is the list of its entries in key order and has "a "range"
  aggregate (min/max across all entries, for consistent color normalization)".
\<close>

record PlotView =
  pv_data :: ndarray
  pv_title :: "string option"
  pv_range :: "real \<times> real"

fun stack_range :: "PlotView list \<Rightarrow> real \<times> real" where
  "stack_range [] = (0, 0)"
| "stack_range [v] = pv_range v"
| "stack_range (v # vs) =
     (min (fst (pv_range v)) (fst (stack_range vs)), max (snd (pv_range v)) (snd (stack_range vs)))"

text \<open>
  The matplotlib objects a \<open>SheetViewPlot\<close> keeps in \<open>self.handles\<close>: the figure
  (\<open>None\<close> until one is made), the title text once \<open>_axis\<close> has set a title, and the
  image once \<open>__call__\<close> has drawn it. Of the image the model keeps what
  \<open>set_data\<close> and \<open>set_clim\<close> write; of the title, the argument last given to
  \<open>set_title\<close> or \<open>set_text\<close>.
\<close>

record AxesImage =
  im_data :: ndarray
  im_clim :: "real \<times> real"

record Handles =
  fig :: bool
  title_text :: "string option option"
  im :: "AxesImage option"

record SheetViewPlot =
  stack :: "PlotView list"
  zorder :: int
  show_title :: bool
  normalize_individually :: bool
  handles :: Handles
  draws :: nat




text \<open>\<open>Plot.__len__\<close>.\<close>

definition len :: "SheetViewPlot \<Rightarrow> int" where
  "len self = int (length (stack self))"

text \<open>
  \<open>SheetViewPlot.__call__\<close> without an axis, the initial render of a plot of its own.
  \<open>_axis\<close> makes the figure and, when titles are shown, sets the title (the empty
  string for \<open>None\<close>); the image of the top view is drawn with the colour limits of
  that view or of the whole stack. \<open>self._stack.top\<close> is the last entry, and the plot
  has one by construction.
\<close>

definition call :: "SheetViewPlot \<Rightarrow> SheetViewPlot" where
  "call self =
     (let sheetview = last (stack self);
          ttl = (if zorder self > 0 then None else pv_title sheetview);
          h1 = (handles self)\<lparr>fig := True\<rparr>;
          h2 = (if show_title self
                then h1\<lparr>title_text := Some (Some (case ttl of None \<Rightarrow> [] | Some s \<Rightarrow> s))\<rparr>
                else h1);
          clims = (if normalize_individually self then pv_range sheetview
                   else stack_range (stack self))
      in self\<lparr>handles := h2\<lparr>im := Some \<lparr>im_data = pv_data sheetview, im_clim = clims\<rparr>\<rparr>\<rparr>)"

text \<open>
  \<open>SheetViewPlot.update_frame\<close>. The frame number is clamped to the last one; then
  the entry is read (IndexError when there is none), the image takes its data
  (AttributeError when no image has been drawn, since \<open>handles.get\<close> gave \<open>None\<close>)
  and, if asked, its range, and the title its text (KeyError when no title was set).
  What was written before an exception stays written, so the plot is returned with
  the exception, if any. \<open>draws\<close> counts the calls of \<open>plt.draw()\<close>.
\<close>

definition update_frame :: "SheetViewPlot \<Rightarrow> int \<Rightarrow> SheetViewPlot \<times> error option" where
  "update_frame self n0 =
     (let n = (if n0 < len self then n0 else len self - 1)
      in case py_index (stack self) n of
           Inl e \<Rightarrow> (self, Some e)
         | Inr sheetview \<Rightarrow>
             (case im (handles self) of
                None \<Rightarrow> (self, Some AttributeError)
              | Some im0 \<Rightarrow>
                  (let im1 = im0\<lparr>im_data := pv_data sheetview\<rparr>;
                       im2 = (if normalize_individually self
                              then im1\<lparr>im_clim := pv_range sheetview\<rparr> else im1);
                       self1 = self\<lparr>handles := (handles self)\<lparr>im := Some im2\<rparr>\<rparr>
                   in if show_title self \<and> zorder self = 0
                      then (case title_text (handles self1) of
                              None \<Rightarrow> (self1, Some KeyError)
                            | Some old \<Rightarrow>
                                (self1\<lparr>handles := (handles self1)
                                           \<lparr>title_text := Some (pv_title sheetview)\<rparr>,
                                        draws := Suc (draws self1)\<rparr>, None))
                      else (self1\<lparr>draws := Suc (draws self1)\<rparr>, None))))"


text \<open>
  \<open>Plot.__getitem__\<close>. For a frame number greater than the number of frames it calls
  \<open>self.warn\<close>, a method that neither \<open>Plot\<close> nor its base class has (the logging
  method of the base class is \<open>warning\<close>): AttributeError, before anything is drawn.
  Otherwise the figure is drawn and set to the frame.
\<close>

definition plot_getitem :: "SheetViewPlot \<Rightarrow> int \<Rightarrow> SheetViewPlot \<times> error option" where
  "plot_getitem self frame =
     (if frame > len self then (self, Some AttributeError)
      else update_frame (call self) frame)"

section \<open>transform.py: HCS\<close>

text \<open>
  numpy does not raise on a division by zero: the quotient is an infinity or a NaN.
  The hue channel is the one place of the modelled code where that can happen, so its
  values after normalization are the reals extended by these three.
\<close>

datatype fval = Fin real | PInf | NInf | NaN

definition np_divide :: "real \<Rightarrow> real \<Rightarrow> fval" where
  "np_divide a b =
     (if b \<noteq> 0 then Fin (a / b) else if a > 0 then PInf else if a < 0 then NInf else NaN)"

text \<open>\<open>x * a + b\<close> for finite \<open>a\<close> and \<open>b\<close>.\<close>

fun np_scale :: "fval \<Rightarrow> real \<Rightarrow> real \<Rightarrow> fval" where
  "np_scale (Fin x) a b = Fin (x * a + b)"
| "np_scale PInf a b = (if a > 0 then PInf else if a < 0 then NInf else NaN)"
| "np_scale NInf a b = (if a > 0 then NInf else if a < 0 then PInf else NaN)"
| "np_scale NaN a b = NaN"

definition clip :: "real \<Rightarrow> real \<Rightarrow> real \<Rightarrow> real" where
  "clip lo hi x = min hi (max lo x)"

fun np_clip :: "real \<Rightarrow> real \<Rightarrow> fval \<Rightarrow> fval" where
  "np_clip lo hi (Fin x) = Fin (clip lo hi x)"
| "np_clip lo hi PInf = Fin hi"
| "np_clip lo hi NInf = Fin (min hi lo)"
| "np_clip lo hi NaN = NaN"

text \<open>
  Modelled from the spec: the array view of the \<open>dataviews\<close> package (module
  \<open>sheetviews\<close>) as \<open>HCS\<close> reads it: a 2-D array of the given shape with bounds,
  label and optional cyclic range. Its \<open>N\<close> property is "range-normalized" data;
  \<open>normalize\<close> below is \<open>SheetView.normalize\<close> of views.py, the same class in the
  \<open>imagen\<close> package, and gives the data of the normalized view. \<open>data.min()\<close> and
  \<open>data.max()\<close> raise ValueError on an array without entries.
\<close>

record DataView =
  dv_data :: "real list list"
  dv_shape :: "nat \<times> nat"
  dv_bounds :: BoundingBox
  dv_label :: string
  dv_cyclic_range :: "real option"

definition wf_view :: "DataView \<Rightarrow> bool" where
  "wf_view v =
     (length (dv_data v) = fst (dv_shape v)
      \<and> list_all (\<lambda>row. length row = snd (dv_shape v)) (dv_data v))"

definition data_min :: "real list list \<Rightarrow> real" where
  "data_min cells = Min (set (concat cells))"

definition data_max :: "real list list \<Rightarrow> real" where
  "data_max cells = Max (set (concat cells))"

definition normalize :: "DataView \<Rightarrow> real \<Rightarrow> real \<Rightarrow> real option \<Rightarrow> error + fval list list" where
  "normalize self min0 max0 norm_factor0 =
     (if concat (dv_data self) = [] then Inl ValueError
      else
        (let nf1 = (case norm_factor0 of None \<Rightarrow> dv_cyclic_range self | Some f \<Rightarrow> Some f);
             norm_factor = (case nf1 of None \<Rightarrow> data_max (dv_data self) - data_min (dv_data self)
                            | Some f \<Rightarrow> f);
             mn = (case nf1 of None \<Rightarrow> min0 | Some f \<Rightarrow> 0);
             mx = (case nf1 of None \<Rightarrow> max0 | Some f \<Rightarrow> 1)
         in Inr (map (map (\<lambda>x. np_scale (np_divide (x - data_min (dv_data self)) norm_factor)
                                    \<bar>mx - mn\<bar> mn))
                   (dv_data self))))"

definition N :: "DataView \<Rightarrow> error + fval list list" where
  "N self = normalize self 0 1 None"

text \<open>
  \<open>colorsys.hsv_to_rgb\<close> of the Python standard library, on reals; \<open>int\<close>
  truncates towards zero.
\<close>

definition py_int :: "real \<Rightarrow> int" where
  "py_int x = (if x \<ge> 0 then \<lfloor>x\<rfloor> else \<lceil>x\<rceil>)"

definition hsv_to_rgb :: "real \<Rightarrow> real \<Rightarrow> real \<Rightarrow> real \<times> real \<times> real" where
  "hsv_to_rgb h s v =
     (if s = 0 then (v, v, v)
      else
        (let i0 = py_int (h * 6);
             f = h * 6 - of_int i0;
             p = v * (1 - s);
             q = v * (1 - s * f);
             t = v * (1 - s * (1 - f));
             i = i0 mod 6
         in if i = 0 then (v, t, p)
            else if i = 1 then (q, v, p)
            else if i = 2 then (p, v, t)
            else if i = 3 then (p, q, v)
            else if i = 4 then (t, p, v)
            else (v, p, q)))"

text \<open>
  The same on a hue that need not be finite: with a saturation other than zero
  \<open>int\<close> raises ValueError on a NaN and OverflowError on an infinity.
\<close>

fun hsv_to_rgb_ext :: "fval \<Rightarrow> real \<Rightarrow> real \<Rightarrow> error + real \<times> real \<times> real" where
  "hsv_to_rgb_ext (Fin h) s v = Inr (hsv_to_rgb h s v)"
| "hsv_to_rgb_ext NaN s v = (if s = 0 then Inr (v, v, v) else Inl ValueError)"
| "hsv_to_rgb_ext h s v = (if s = 0 then Inr (v, v, v) else Inl OverflowError)"

text \<open>
  \<open>numpy.vectorize\<close> of a function of three arguments over three 2-D arrays: the
  arrays are broadcast to a common shape (ValueError when there is none) and the
  function is applied entry by entry; its first exception is the result.
\<close>

definition broadcast_dim :: "nat \<Rightarrow> nat \<Rightarrow> nat option" where
  "broadcast_dim a b =
     (if a = b then Some a else if a = 1 then Some b else if b = 1 then Some a else None)"

definition broadcast_shape :: "nat \<times> nat \<Rightarrow> nat \<times> nat \<Rightarrow> (nat \<times> nat) option" where
  "broadcast_shape a b =
     (case broadcast_dim (fst a) (fst b) of
        None \<Rightarrow> None
      | Some m \<Rightarrow> (case broadcast_dim (snd a) (snd b) of None \<Rightarrow> None | Some n \<Rightarrow> Some (m, n)))"

definition stretch :: "nat \<Rightarrow> 'a list \<Rightarrow> 'a list" where
  "stretch n xs = (if length xs = n then xs else replicate n (hd xs))"

definition broadcast_to :: "nat \<times> nat \<Rightarrow> 'a list list \<Rightarrow> 'a list list" where
  "broadcast_to sh cells = stretch (fst sh) (map (stretch (snd sh)) cells)"

fun sequence :: "(error + 'a) list \<Rightarrow> error + 'a list" where
  "sequence [] = Inr []"
| "sequence (x # xs) =
     (case x of
        Inl e \<Rightarrow> Inl e
      | Inr y \<Rightarrow> (case sequence xs of Inl e \<Rightarrow> Inl e | Inr ys \<Rightarrow> Inr (y # ys)))"

definition vectorize3 ::
  "('a \<Rightarrow> 'b \<Rightarrow> 'c \<Rightarrow> error + 'd) \<Rightarrow> nat \<times> nat \<Rightarrow> 'a list list \<Rightarrow> nat \<times> nat \<Rightarrow> 'b list list
     \<Rightarrow> nat \<times> nat \<Rightarrow> 'c list list \<Rightarrow> error + 'd list list" where
  "vectorize3 f sa a sb b sc c =
     (case broadcast_shape sa sb of
        None \<Rightarrow> Inl ValueError
      | Some sab \<Rightarrow>
          (case broadcast_shape sab sc of
             None \<Rightarrow> Inl ValueError
           | Some sh \<Rightarrow>
               sequence
                 (map (\<lambda>(ra, rb, rc). sequence (map (\<lambda>(x, y, z). f x y z) (zip ra (zip rb rc))))
                    (zip (broadcast_to sh a) (zip (broadcast_to sh b) (broadcast_to sh c))))))"

text \<open>The parameters of \<open>HCS\<close>, the overlay it is given and the RGB view it returns.\<close>

record HCS_params =
  S_multiplier :: real
  C_multiplier :: real
  flipSC :: bool

definition HCS_defaults :: HCS_params where
  "HCS_defaults = \<lparr>S_multiplier = 1, C_multiplier = 1, flipSC = False\<rparr>"

record DataOverlay =
  ov_layers :: "DataView list"
  ov_roi_bounds :: BoundingBox

record RGBView =
  rgb_data :: "(real \<times> real \<times> real) list list"
  rgb_bounds :: BoundingBox
  rgb_roi_bounds :: BoundingBox
  rgb_label :: string

text \<open>
  \<open>HCS._process\<close>. \<open>overlay[0]\<close> and \<open>overlay[1]\<close> raise IndexError on a shorter
  overlay; the strength is the third layer of an overlay of exactly three and an array
  of ones otherwise.
\<close>

definition HCS_process :: "HCS_params \<Rightarrow> DataOverlay \<Rightarrow> error + RGBView list" where
  "HCS_process p overlay =
     (case ov_layers overlay of
        hue # confidence # rest \<Rightarrow>
          (let strength =
                 (if length (ov_layers overlay) = 3
                  then (dv_shape (hd rest), dv_data (hd rest))
                  else (dv_shape hue,
                        replicate (fst (dv_shape hue)) (replicate (snd (dv_shape hue)) 1)))
           in if dv_shape hue \<noteq> dv_shape confidence
              then Inl (Exception ''Cannot combine plots with different shapes'')
              else
                (case N hue of
                   Inl e \<Rightarrow> Inl e
                 | Inr hn \<Rightarrow>
                     (let h = map (map (np_clip 0 1)) hn;
                          s = map (map (\<lambda>x. clip 0 1 (x * C_multiplier p))) (dv_data confidence);
                          v = map (map (\<lambda>x. clip 0 1 (x * S_multiplier p))) (snd strength);
                          s1 = (if flipSC p then v else s);
                          v1 = (if flipSC p then map (map (clip 0 1)) s else v);
                          shs = (if flipSC p then fst strength else dv_shape confidence);
                          shv = (if flipSC p then dv_shape confidence else fst strength)
                      in case vectorize3 hsv_to_rgb_ext (dv_shape hue) h shs s1 shv v1 of
                           Inl e \<Rightarrow> Inl e
                         | Inr rgb \<Rightarrow>
                             Inr [\<lparr>rgb_data = rgb, rgb_bounds = dv_bounds hue,
                                    rgb_roi_bounds = ov_roi_bounds overlay,
                                    rgb_label = dv_label hue @ '' HCS Plot''\<rparr>])))
      | _ \<Rightarrow> Inl IndexError)"

text \<open>
  The spec's words for the result, for comparison: "the pure-hue HSV\<rightarrow>RGB conversion at
  full saturation and value" of an array of hues.
\<close>

definition pure_hue_rgb :: "real list list \<Rightarrow> (real \<times> real \<times> real) list list" where
  "pure_hue_rgb hues = map (map (\<lambda>h. hsv_to_rgb h 1 1)) hues"

text \<open>
  The hue that \<open>HCS\<close> converts, in the spec's words "range-normalized" and "clipped to
  [0,1]": every value is taken relative to the least one, divided by the norm factor
  (the cyclic range if the view has one, the spread of the values otherwise) and clipped.
\<close>

definition norm_factor :: "DataView \<Rightarrow> real" where
  "norm_factor v =
     (case dv_cyclic_range v of
        None \<Rightarrow> data_max (dv_data v) - data_min (dv_data v)
      | Some c \<Rightarrow> c)"

definition range_normalized :: "DataView \<Rightarrow> real list list" where
  "range_normalized v =
     map (map (\<lambda>x. clip 0 1 ((x - data_min (dv_data v)) / norm_factor v))) (dv_data v)"

section \<open>plots.py: SheetPlot._collapse_channels\<close>

text \<open>
  The channel reduction mutates objects that the caller may hold too, so the objects
  live in an explicit store: views and overlays each at an address, an overlay holding
  the addresses of its layers, and \<open>next_view\<close>, \<open>next_overlay\<close> the first
  addresses not yet given out. Creating an object takes the next address.

  Modelled from the spec: the view and overlay of the \<open>dataviews\<close> package (module
  \<open>views\<close>) as the reduction reads them: "layer labels", a "display-style key",
  bounds, and an overlay "indexable by position" and by label.
\<close>

record ChannelView =
  cv_label :: string
  cv_style :: string
  cv_bounds :: BoundingBox
  cv_data :: "real list list"

record ChannelOverlay =
  co_label :: string
  co_bounds :: BoundingBox
  co_data :: "nat list"

record heap =
  views :: "nat \<Rightarrow> ChannelView"
  overlays :: "nat \<Rightarrow> ChannelOverlay"
  next_view :: nat
  next_overlay :: nat

definition new_view :: "heap \<Rightarrow> ChannelView \<Rightarrow> heap \<times> nat" where
  "new_view h v =
     (h\<lparr>views := (views h)(next_view h := v), next_view := Suc (next_view h)\<rparr>, next_view h)"

definition new_overlay :: "heap \<Rightarrow> ChannelOverlay \<Rightarrow> heap \<times> nat" where
  "new_overlay h ov =
     (h\<lparr>overlays := (overlays h)(next_overlay h := ov), next_overlay := Suc (next_overlay h)\<rparr>,
      next_overlay h)"

text \<open>
  A stack of overlays or of plain views, each entry a key with the address of its
  element. The stack object itself is never written by the reduction and is a value.
\<close>

datatype 'k stack = OverlayStack "('k \<times> nat) list" | ViewStack "('k \<times> nat) list"

text \<open>
  \<open>copy.deepcopy\<close> of a stack of overlays: every overlay and every layer reached is
  created anew with the same contents, and an object reached twice is copied once
  (the memo lists pair an original with its copy).
\<close>

definition copy_view ::
  "heap \<Rightarrow> (nat \<times> nat) list \<Rightarrow> nat \<Rightarrow> heap \<times> (nat \<times> nat) list \<times> nat" where
  "copy_view h memo a =
     (case map_of memo a of
        Some a' \<Rightarrow> (h, memo, a')
      | None \<Rightarrow> (case new_view h (views h a) of (h', a') \<Rightarrow> (h', (a, a') # memo, a')))"

fun copy_views ::
  "heap \<Rightarrow> (nat \<times> nat) list \<Rightarrow> nat list \<Rightarrow> heap \<times> (nat \<times> nat) list \<times> nat list" where
  "copy_views h memo [] = (h, memo, [])"
| "copy_views h memo (a # as) =
     (case copy_view h memo a of
        (h1, memo1, a') \<Rightarrow>
          (case copy_views h1 memo1 as of (h2, memo2, as') \<Rightarrow> (h2, memo2, a' # as')))"

definition copy_overlay ::
  "heap \<Rightarrow> (nat \<times> nat) list \<Rightarrow> (nat \<times> nat) list \<Rightarrow> nat
     \<Rightarrow> heap \<times> (nat \<times> nat) list \<times> (nat \<times> nat) list \<times> nat" where
  "copy_overlay h vmemo omemo a =
     (case map_of omemo a of
        Some a' \<Rightarrow> (h, vmemo, omemo, a')
      | None \<Rightarrow>
          (case copy_views h vmemo (co_data (overlays h a)) of
             (h1, vmemo1, ls) \<Rightarrow>
               (case new_overlay h1 ((overlays h a)\<lparr>co_data := ls\<rparr>) of
                  (h2, a') \<Rightarrow> (h2, vmemo1, (a, a') # omemo, a'))))"

fun copy_entries ::
  "heap \<Rightarrow> (nat \<times> nat) list \<Rightarrow> (nat \<times> nat) list \<Rightarrow> ('k \<times> nat) list
     \<Rightarrow> heap \<times> ('k \<times> nat) list" where
  "copy_entries h vmemo omemo [] = (h, [])"
| "copy_entries h vmemo omemo ((k, a) # es) =
     (case copy_overlay h vmemo omemo a of
        (h1, vmemo1, omemo1, a') \<Rightarrow>
          (case copy_entries h1 vmemo1 omemo1 es of (h2, es') \<Rightarrow> (h2, (k, a') # es')))"

definition deepcopy :: "heap \<Rightarrow> ('k \<times> nat) list \<Rightarrow> heap \<times> ('k \<times> nat) list" where
  "deepcopy h es = copy_entries h [] [] es"

text \<open>Python's \<open>str.split(sep)\<close>, \<open>str.strip()\<close>, \<open>endswith\<close> and \<open>startswith\<close>.\<close>

fun split_on :: "char \<Rightarrow> string \<Rightarrow> string list" where
  "split_on c [] = [[]]"
| "split_on c (x # xs) =
     (if x = c then [] # split_on c xs
      else (case split_on c xs of w # ws \<Rightarrow> (x # w) # ws | [] \<Rightarrow> [[x]]))"

definition is_space :: "char \<Rightarrow> bool" where
  "is_space c = (c \<in> set [CHR '' '', CHR 0x09, CHR 0x0A, CHR 0x0B, CHR 0x0C, CHR 0x0D])"

definition strip :: "string \<Rightarrow> string" where
  "strip s = rev (dropWhile is_space (rev (dropWhile is_space s)))"

definition endswith :: "string \<Rightarrow> string \<Rightarrow> bool" where
  "endswith l p = (length p \<le> length l \<and> drop (length l - length p) l = p)"

definition startswith :: "string \<Rightarrow> string \<Rightarrow> bool" where
  "startswith k l = (take (length l) k = l)"

text \<open>
  The overlay's \<open>labels\<close>, its item under a label (the first layer that has it,
  KeyError if none) and the bounds check of the \<open>SheetOverlay\<close> constructor.
\<close>

definition labels :: "heap \<Rightarrow> nat \<Rightarrow> string list" where
  "labels h ov = map (\<lambda>a. cv_label (views h a)) (co_data (overlays h ov))"

definition getitem_label :: "heap \<Rightarrow> nat \<Rightarrow> string \<Rightarrow> nat option" where
  "getitem_label h ov l = find (\<lambda>a. cv_label (views h a) = l) (co_data (overlays h ov))"

fun those_items :: "nat option list \<Rightarrow> nat list option" where
  "those_items [] = Some []"
| "those_items (None # xs) = None"
| "those_items (Some a # xs) = map_option ((#) a) (those_items xs)"

text \<open>
  The loop of \<open>SheetPlot._collapse\<close> over the positions \<open>i\<close>, with the store, the
  \<open>skip\<close> counter and the layers collected so far. A channel operation is a function
  from the views of the matched layers to a new view, or an exception; the view it
  returns is a new object, whose style is then set.
\<close>

fun collapse_loop ::
  "(ChannelView list \<Rightarrow> error + ChannelView) \<Rightarrow> string list \<Rightarrow> string \<Rightarrow> nat \<Rightarrow> nat list
     \<Rightarrow> heap \<Rightarrow> nat \<Rightarrow> nat list \<Rightarrow> heap \<times> (error + nat list)" where
  "collapse_loop fn pat style_key ov [] h skip collapsed_views = (h, Inr collapsed_views)"
| "collapse_loop fn pat style_key ov (i # is) h skip collapsed_views =
     (let layer_labels = take (length pat) (drop i (labels h ov));
          matching = list_all (\<lambda>(l, p). endswith l p) (zip layer_labels pat)
      in if matching \<and> length layer_labels = length pat then
           (case those_items (map (getitem_label h ov) layer_labels) of
              None \<Rightarrow> (h, Inl KeyError)
            | Some vs \<Rightarrow>
                (case new_overlay h \<lparr>co_label = [], co_bounds = co_bounds (overlays h ov),
                                     co_data = vs\<rparr> of
                   (h1, overlay_slice) \<Rightarrow>
                     if list_ex (\<lambda>v. lbrt (cv_bounds (views h1 v))
                                       \<noteq> lbrt (co_bounds (overlays h1 overlay_slice))) vs
                     then (h1, Inl (Exception ''Layer must have same bounds as SheetOverlay''))
                     else
                       (case fn (map (views h1) vs) of
                          Inl e \<Rightarrow> (h1, Inl e)
                        | Inr made \<Rightarrow>
                            (case new_view h1 made of
                               (h2, collapsed_view) \<Rightarrow>
                                 collapse_loop fn pat style_key ov is
                                   (h2\<lparr>views := (views h2)
                                          (collapsed_view :=
                                             (views h2 collapsed_view)\<lparr>cv_style := style_key\<rparr>)\<rparr>)
                                   (length vs - 1) (collapsed_views @ [collapsed_view])))))
         else if skip \<noteq> 0 then collapse_loop fn pat style_key ov is h (skip - 1) collapsed_views
         else collapse_loop fn pat style_key ov is h skip
                (collapsed_views @ [co_data (overlays h ov) ! i]))"

text \<open>
  \<open>SheetPlot._collapse\<close>: nothing happens when the pattern has more segments than
  the overlay has layers; otherwise the overlay's \<open>data\<close> is replaced by the
  collected layers, in place.
\<close>

definition collapse ::
  "heap \<Rightarrow> nat \<Rightarrow> string \<Rightarrow> (ChannelView list \<Rightarrow> error + ChannelView) \<Rightarrow> string
     \<Rightarrow> heap \<times> error option" where
  "collapse h ov pattern fn style_key =
     (let pat = map strip (split_on (CHR ''*'') pattern)
      in if length pat > length (co_data (overlays h ov)) then (h, None)
         else
           (case collapse_loop fn pat style_key ov [0 ..< length (co_data (overlays h ov))] h 0 [] of
              (h1, Inl e) \<Rightarrow> (h1, Some e)
            | (h1, Inr collapsed_views) \<Rightarrow>
                (h1\<lparr>overlays := (overlays h1)
                       (ov := (overlays h1 ov)\<lparr>co_data := collapsed_views\<rparr>)\<rparr>, None)))"

text \<open>
  Modelled from the spec: the channel-operation registry \<open>channels\<close> (module
  \<open>options\<close>) with \<open>channel_modes\<close>: "a mapping from a name to an object with a
  layer-count "size", a suffix-match pattern, and an operation mode key pointing to one
  of the channel-composition operations". \<open>reg_keys\<close> is \<open>channels.keys()\<close>,
  \<open>reg_options\<close> is \<open>channels.options()\<close>, and \<open>reg_fn\<close> gives the operation a
  name stands for, instantiated with its options.
\<close>

record registry =
  reg_keys :: "string list"
  reg_options :: "string list"
  reg_size :: "string \<Rightarrow> nat"
  reg_pattern :: "string \<Rightarrow> string"
  reg_fn :: "string \<Rightarrow> ChannelView list \<Rightarrow> error + ChannelView"

text \<open>The two loops of \<open>_collapse_channels\<close>; an exception ends them.\<close>

fun keys_loop :: "registry \<Rightarrow> nat \<Rightarrow> string list \<Rightarrow> heap \<Rightarrow> heap \<times> error option" where
  "keys_loop reg ov [] h = (h, None)"
| "keys_loop reg ov (key # ks) h =
     (case collapse h ov (reg_pattern reg key) (reg_fn reg key) key of
        (h1, Some e) \<Rightarrow> (h1, Some e)
      | (h1, None) \<Rightarrow> keys_loop reg ov ks h1)"

fun overlays_loop :: "registry \<Rightarrow> nat list \<Rightarrow> heap \<Rightarrow> heap \<times> error option" where
  "overlays_loop reg [] h = (h, None)"
| "overlays_loop reg (ov # ovs) h =
     (let customized = filter (\<lambda>k. co_label (overlays h ov) \<noteq> []
                                    \<and> startswith k (co_label (overlays h ov))) (reg_keys reg);
          sorted_customized = sort_key (\<lambda>k. - int (reg_size reg k)) customized;
          sorted_reductions = sort_key (\<lambda>k. - int (reg_size reg k)) (reg_options reg)
      in case keys_loop reg ov (sorted_customized @ sorted_reductions) h of
           (h1, Some e) \<Rightarrow> (h1, Some e)
         | (h1, None) \<Rightarrow> overlays_loop reg ovs h1)"

text \<open>
  \<open>SheetPlot._collapse_channels\<close>. \<open>stack.type\<close> is \<open>None\<close> for an empty stack,
  on which \<open>issubclass\<close> raises TypeError. The result is the store with the stack
  returned, or with the exception raised.
\<close>

definition collapse_channels ::
  "registry \<Rightarrow> heap \<Rightarrow> 'k stack \<Rightarrow> heap \<times> (error + 'k stack)" where
  "collapse_channels reg h stack0 =
     (case stack0 of
        ViewStack es \<Rightarrow> if es = [] then (h, Inl TypeError) else (h, Inr stack0)
      | OverlayStack es \<Rightarrow>
          if es = [] then (h, Inl TypeError)
          else if reg_keys reg = [] then (h, Inr stack0)
          else
            (case deepcopy h es of
               (h1, es') \<Rightarrow>
                 (case overlays_loop reg (map snd es') h1 of
                    (h2, Some e) \<Rightarrow> (h2, Inl e)
                  | (h2, None) \<Rightarrow> (h2, Inr (OverlayStack es')))))"

text \<open>
  What "never mutated" means in the store: every object that existed before the call
  is the same after it.
\<close>

definition unchanged :: "heap \<Rightarrow> heap \<Rightarrow> bool" where
  "unchanged h h' =
     ((\<forall>a < next_view h. views h' a = views h a)
      \<and> (\<forall>a < next_overlay h. overlays h' a = overlays h a))"

text \<open>
  The same relative to a baseline: the objects below the addresses \<open>nv\<close> and \<open>no\<close>
  are as they were, and the store has not shrunk below the baseline.
\<close>

definition frame :: "nat \<Rightarrow> nat \<Rightarrow> heap \<Rightarrow> heap \<Rightarrow> bool" where
  "frame nv no h h' =
     ((\<forall>a < nv. views h' a = views h a) \<and> (\<forall>a < no. overlays h' a = overlays h a)
      \<and> nv \<le> next_view h' \<and> no \<le> next_overlay h')"

section \<open>Properties of SheetView construction\<close>

text \<open>
  Claim C1. The claim: a view built from an array of shape (rows, cols) has
  xdensity = cols/(r-l) and ydensity = rows/(t-b). \<open>SheetView.__init__\<close> unpacks the
  shape as \<open>(dim1, dim2)\<close> and divides \<open>dim1\<close>, the number of rows, by the
  width, and \<open>dim2\<close>, the number of columns, by the height. On a 1 x 2 array over
  the unit square the view gets xdensity 1 and ydensity 2, where the claim asks for 2 and 1.
\<close>

theorem SheetView_init_density_swapped:
  "\<exists>v. SheetView_init (Some (Array2 1 2 [[0, 0]])) (BoundingBox (0, 0, 1, 1)) no_kwargs = Inr v
       \<and> xdensity v = 1 \<and> ydensity v = 2
       \<and> xdensity v \<noteq> 2 / (1 - 0) \<and> ydensity v \<noteq> 1 / (1 - 0)"
  by (simp add: SheetView_init_def SheetCoordinateSystem_init_def SheetLayer.extend_def)

text \<open>
  Claim C10. With \<open>data\<close> equal to \<open>None\<close> and non-degenerate bounds the
  constructor succeeds; the view holds the 1 x 1 array \<open>[[0]]\<close> and its densities are
  1/(r-l) and 1/(t-b), those of a 1 x 1 shape.
\<close>

theorem SheetView_init_None:
  assumes "nondegenerate bnds" and "lbrt bnds = (l, b, r, t)"
  shows "\<exists>v. SheetView_init None bnds kw = Inr v
           \<and> data v = Array2 1 1 [[0]]
           \<and> shape (data v) = [1, 1]
           \<and> xdensity v = 1 / (r - l) \<and> ydensity v = 1 / (t - b)
           \<and> bounds v = bnds"
  using assms
  by (simp add: SheetView_init_def SheetCoordinateSystem_init_def SheetLayer.extend_def
      SheetLayer_init_def nondegenerate_def)

theorem SheetView_init_None_witness:
  "nondegenerate (BoundingBox (0, 0, 2, 4))
   \<and> (\<exists>v. SheetView_init None (BoundingBox (0, 0, 2, 4)) no_kwargs = Inr v
           \<and> data v = Array2 1 1 [[0]]
           \<and> xdensity v = 1 / 2 \<and> ydensity v = 1 / 4)"
proof -
  have nd: "nondegenerate (BoundingBox (0, 0, 2, 4))"
    by (simp add: nondegenerate_def)
  have lb: "lbrt (BoundingBox (0, 0, 2, 4)) = (0, 0, 2, 4)"
    by simp
  from SheetView_init_None [OF nd lb, of no_kwargs] nd show ?thesis
    by auto
qed

section \<open>Properties of SheetOverlay\<close>

lemma add_all_ok:
  "\<forall>l \<in> set new. lbrt (layer_bounds l) = lbrt (bounds base) \<Longrightarrow>
   add_all (Overlay ls base) new = Inr (Overlay (ls @ new) base)"
  by (induction new arbitrary: ls) auto

lemma add_all_mismatch:
  "\<exists>l \<in> set new. lbrt (layer_bounds l) \<noteq> lbrt (bounds base) \<Longrightarrow>
   add_all (Overlay ls base) new = Inl (Exception ''Layer must have same bounds as SheetOverlay'')"
proof (induction new arbitrary: ls)
  case Nil
  then show ?case by simp
next
  case (Cons l rest)
  show ?case
  proof (cases "lbrt (layer_bounds l) \<noteq> lbrt (bounds base)")
    case True
    then show ?thesis by simp
  next
    case False
    with Cons.prems have "\<exists>l \<in> set rest. lbrt (layer_bounds l) \<noteq> lbrt (bounds base)"
      by auto
    from Cons.IH [OF this] False show ?thesis by simp
  qed
qed

text \<open>
  Claim C6. Adding a layer whose \<open>lbrt\<close> tuple differs from the overlay's raises the
  bounds-mismatch exception, and a layer with equal bounds is appended. Construction
  from a list of layers adds them one by one, so it raises exactly when some layer of
  the list has other bounds than the ones given to the constructor, and otherwise
  yields the overlay of all the layers in order.
\<close>

theorem SheetOverlay_add_checks_bounds:
  "(lbrt (layer_bounds l) \<noteq> lbrt (bounds base) \<longrightarrow>
      add (Overlay ls base) l = Inl (Exception ''Layer must have same bounds as SheetOverlay''))
   \<and> (lbrt (layer_bounds l) = lbrt (bounds base) \<longrightarrow>
      add (Overlay ls base) l = Inr (Overlay (ls @ [l]) base))
   \<and> ((\<exists>x \<in> set new. lbrt (layer_bounds x) \<noteq> lbrt bnds) \<longrightarrow>
      SheetOverlay_init new bnds kw = Inl (Exception ''Layer must have same bounds as SheetOverlay''))
   \<and> ((\<forall>x \<in> set new. lbrt (layer_bounds x) = lbrt bnds) \<longrightarrow>
      SheetOverlay_init new bnds kw = Inr (Overlay new (SheetLayer_init bnds kw)))"
proof -
  have b: "bounds (SheetLayer_init bnds kw) = bnds"
    by (simp add: SheetLayer_init_def)
  have "(\<exists>x \<in> set new. lbrt (layer_bounds x) \<noteq> lbrt bnds) \<Longrightarrow>
      SheetOverlay_init new bnds kw = Inl (Exception ''Layer must have same bounds as SheetOverlay'')"
    using add_all_mismatch [of new "SheetLayer_init bnds kw" "[]"] b
    by (simp add: SheetOverlay_init_def)
  moreover have "(\<forall>x \<in> set new. lbrt (layer_bounds x) = lbrt bnds) \<Longrightarrow>
      SheetOverlay_init new bnds kw = Inr (Overlay new (SheetLayer_init bnds kw))"
    using add_all_ok [of new "SheetLayer_init bnds kw" "[]"] b
    by (simp add: SheetOverlay_init_def)
  ultimately show ?thesis by simp
qed

theorem SheetOverlay_add_checks_bounds_witness:
  "add (Overlay [] (SheetLayer_init (BoundingBox (0, 0, 1, 1)) no_kwargs))
       (Points [] (SheetLayer_init (BoundingBox (0, 0, 2, 2)) no_kwargs))
     = Inl (Exception ''Layer must have same bounds as SheetOverlay'')
   \<and> add (Overlay [] (SheetLayer_init (BoundingBox (0, 0, 1, 1)) no_kwargs))
       (Points [] (SheetLayer_init (BoundingBox (0, 0, 1, 1)) no_kwargs))
     = Inr (Overlay [Points [] (SheetLayer_init (BoundingBox (0, 0, 1, 1)) no_kwargs)]
              (SheetLayer_init (BoundingBox (0, 0, 1, 1)) no_kwargs))
   \<and> SheetOverlay_init
       [Points [] (SheetLayer_init (BoundingBox (0, 0, 1, 1)) no_kwargs),
        Points [] (SheetLayer_init (BoundingBox (0, 0, 2, 2)) no_kwargs)]
       (BoundingBox (0, 0, 1, 1)) no_kwargs
     = Inl (Exception ''Layer must have same bounds as SheetOverlay'')
   \<and> SheetOverlay_init
       [Points [] (SheetLayer_init (BoundingBox (0, 0, 1, 1)) no_kwargs)]
       (BoundingBox (0, 0, 1, 1)) no_kwargs
     = Inr (Overlay [Points [] (SheetLayer_init (BoundingBox (0, 0, 1, 1)) no_kwargs)]
              (SheetLayer_init (BoundingBox (0, 0, 1, 1)) no_kwargs))"
proof -
  let ?u = "SheetLayer_init (BoundingBox (0, 0, 1, 1)) no_kwargs"
  let ?w = "SheetLayer_init (BoundingBox (0, 0, 2, 2)) no_kwargs"
  have bu: "bounds ?u = BoundingBox (0, 0, 1, 1)" and bw: "bounds ?w = BoundingBox (0, 0, 2, 2)"
    by (simp_all add: SheetLayer_init_def)
  note t1 = SheetOverlay_add_checks_bounds
    [where l = "Points [] ?w" and base = ?u and ls = "[]"
       and new = "[Points [] ?u, Points [] ?w]" and bnds = "BoundingBox (0, 0, 1, 1)"
       and kw = no_kwargs]
  note t2 = SheetOverlay_add_checks_bounds
    [where l = "Points [] ?u" and base = ?u and ls = "[]"
       and new = "[Points [] ?u]" and bnds = "BoundingBox (0, 0, 1, 1)"
       and kw = no_kwargs]
  from t1 t2 bu bw show ?thesis
    by simp
qed

section \<open>Properties of SheetView.__getitem__\<close>

lemma SheetView_init_Array2:
  "lbrt bnds = (l, b, r, t) \<Longrightarrow> r \<noteq> l \<Longrightarrow> t \<noteq> b \<Longrightarrow>
   SheetView_init (Some (Array2 m n cells)) bnds kw =
     Inr \<lparr>bounds = bnds,
          roi_bounds = (case kw_roi_bounds kw of None \<Rightarrow> bnds | Some roi \<Rightarrow> roi),
          title = kw_title kw,
          style = (case kw_style kw of None \<Rightarrow> [] | Some s \<Rightarrow> s),
          metadata = (case kw_metadata kw of None \<Rightarrow> [] | Some m \<Rightarrow> m),
          data = Array2 m n cells, cyclic_range = kw_cyclic_range kw,
          xdensity = real m / (r - l), ydensity = real n / (t - b)\<rparr>"
  by (simp add: SheetView_init_def SheetCoordinateSystem_init_def SheetLayer.extend_def
      SheetLayer_init_def)

lemma SheetView_init_flat:
  "lbrt bnds = (l, b, r, t) \<Longrightarrow> t = b \<Longrightarrow>
   SheetView_init (Some (Array2 m n cells)) bnds kw = Inl ZeroDivisionError"
  by (simp add: SheetView_init_def)

text \<open>
  Claim C2. The claim: indexing with two slices that describe a region entirely outside
  the view's bounds returns an empty view and never raises. The view over the unit
  square is indexed with x in [2, 3] and y in [1, 2]: the region lies to the right of
  the view and shares no point with it. \<open>__getitem__\<close> clamps the y-range to
  \<open>ystart = max(0, 1) = 1\<close> and \<open>yend = min(1, 2) = 1\<close>, so the new bounds have
  height zero, and \<open>SheetView.__init__\<close> divides by \<open>t - b = 0\<close>:
  ZeroDivisionError, whatever sub-array was cut out.
\<close>

theorem getitem_outside_touching_raises:
  "\<exists>v. SheetView_init (Some (Array2 1 1 [[7]])) (BoundingBox (0, 0, 1, 1)) no_kwargs = Inr v
       \<and> lbrt (bounds v) = (0, 0, 1, 1)
       \<and> getitem v (Tuple [PySlice (Some 2) (Some 3), PySlice (Some 1) (Some 2)])
           = Inl ZeroDivisionError"
proof -
  define v where "v = \<lparr>bounds = BoundingBox (0, 0, 1, 1), roi_bounds = BoundingBox (0, 0, 1, 1),
     title = None, style = [], metadata = [], data = Array2 1 1 [[7]], cyclic_range = None,
     xdensity = 1, ydensity = 1\<rparr>"
  have init: "SheetView_init (Some (Array2 1 1 [[7]])) (BoundingBox (0, 0, 1, 1)) no_kwargs = Inr v"
    using SheetView_init_Array2 [of "BoundingBox (0, 0, 1, 1)" 0 0 1 1 1 1 "[[7]]" no_kwargs]
    by (simp add: v_def no_kwargs_def)
  have b: "lbrt (bounds v) = (0, 0, 1, 1)" and d: "data v = Array2 1 1 [[7]]"
    by (simp_all add: v_def)
  have bb: "BoundingBox_points (2, 1) (1, 1) = BoundingBox (1, 1, 2, 1)"
    by (simp add: BoundingBox_points_def)
  have flat: "SheetView_init (Some (Array2 m n cells)) (BoundingBox (1, 1, 2, 1)) kw
               = Inl ZeroDivisionError" for m n cells kw
    by (rule SheetView_init_flat [of _ 1 1 2 1]) simp_all
  have "getitem v (Tuple [PySlice (Some 2) (Some 3), PySlice (Some 1) (Some 2)])
          = Inl ZeroDivisionError"
    by (cases "Slice_new (BoundingBox (1, 1, 2, 1)) v") (simp add: b d bb flat Let_def)
  with init b show ?thesis by blast
qed

text \<open>
  Claim C8. The claim: slicing a view with ranges that cover its full bounds gives back
  the original data. The 2 x 4 array over the unit square gets xdensity 2 and
  ydensity 4 from \<open>SheetView.__init__\<close> (rows over width, columns over height), and
  the sub-array of the full bounds is cut with these densities: rows 0 to 4 and columns
  0 to 2, which numpy clamps to the 2 x 2 block \<open>[[1, 2], [5, 6]]\<close>. Columns 2
  and 3 of the data are lost.
\<close>

theorem getitem_full_bounds_crops:
  "\<exists>v w. SheetView_init (Some (Array2 2 4 [[1, 2, 3, 4], [5, 6, 7, 8]]))
             (BoundingBox (0, 0, 1, 1)) no_kwargs = Inr v
       \<and> lbrt (bounds v) = (0, 0, 1, 1)
       \<and> getitem v (Tuple [PySlice (Some 0) (Some 1), PySlice (Some 0) (Some 1)])
           = Inr (ItemView w)
       \<and> data w = Array2 2 2 [[1, 2], [5, 6]]
       \<and> data w \<noteq> data v"
proof -
  define v where "v = \<lparr>bounds = BoundingBox (0, 0, 1, 1), roi_bounds = BoundingBox (0, 0, 1, 1),
     title = None, style = [], metadata = [], data = Array2 2 4 [[1, 2, 3, 4], [5, 6, 7, 8]],
     cyclic_range = None, xdensity = 2, ydensity = 4\<rparr>"
  define kw where "kw = no_kwargs\<lparr>kw_cyclic_range := cyclic_range v,
     kw_style := Some (style v), kw_metadata := Some (metadata v)\<rparr>"
  define w where "w = \<lparr>bounds = BoundingBox (0, 0, 1, 1), roi_bounds = BoundingBox (0, 0, 1, 1),
     title = None, style = [], metadata = [], data = Array2 2 2 [[1, 2], [5, 6]],
     cyclic_range = None, xdensity = 2, ydensity = 2\<rparr>"
  have init: "SheetView_init (Some (Array2 2 4 [[1, 2, 3, 4], [5, 6, 7, 8]]))
                (BoundingBox (0, 0, 1, 1)) no_kwargs = Inr v"
    using SheetView_init_Array2 [of "BoundingBox (0, 0, 1, 1)" 0 0 1 1 2 4 _ no_kwargs]
    by (simp add: v_def no_kwargs_def)
  have b: "lbrt (bounds v) = (0, 0, 1, 1)"
    and d: "data v = Array2 2 4 [[1, 2, 3, 4], [5, 6, 7, 8]]"
    by (simp_all add: v_def)
  have bb: "BoundingBox_points (0, 0) (1, 1) = BoundingBox (0, 0, 1, 1)"
    by (simp add: BoundingBox_points_def)
  have sl: "Slice_new (BoundingBox (0, 0, 1, 1)) v = (0, 4, 0, 2)"
    by (simp add: Slice_new_def sheet2matrix_def v_def ceiling_def)
  have sub: "slice_len 0 4 2 = 2" "slice_len 0 2 4 = 2"
    "map (py_slice 0 2) (py_slice 0 4 [[1, 2, 3, 4], [5, 6, 7, 8 :: real]]) = [[1, 2], [5, 6]]"
    by (simp_all add: slice_len_def norm_index_def py_slice_def)
  have init2: "SheetView_init (Some (Array2 2 2 [[1, 2], [5, 6]])) (BoundingBox (0, 0, 1, 1)) kw = Inr w"
    using SheetView_init_Array2 [of "BoundingBox (0, 0, 1, 1)" 0 0 1 1 2 2 _ kw]
    by (simp add: w_def kw_def v_def no_kwargs_def)
  have "getitem v (Tuple [PySlice (Some 0) (Some 1), PySlice (Some 0) (Some 1)])
          = Inr (ItemView w)"
    using init2 by (simp add: b d bb sl sub Let_def kw_def)
  moreover have "data w = Array2 2 2 [[1, 2], [5, 6]]" "data w \<noteq> data v"
    by (simp_all add: w_def v_def)
  ultimately show ?thesis using init b by blast
qed

section \<open>Properties of SheetStack\<close>

lemma homogeneous_iff:
  "homogeneous s \<longleftrightarrow>
     (\<forall>e \<in> set (entries s). Some (lbrt (layer_bounds (snd e))) = map_option lbrt (stack_bounds s))
     \<and> (\<forall>e \<in> set (entries s). \<forall>e' \<in> set (entries s). type_of (snd e) = type_of (snd e'))"
  by (simp add: homogeneous_def list_all_iff)

lemma item_check_fst:
  "fst (item_check s k d) =
     (if stack_bounds s = None then s\<lparr>stack_bounds := Some (layer_bounds d)\<rparr> else s)"
  by (simp add: item_check_def Let_def)

lemma homogeneous_item_check:
  assumes "homogeneous s"
  shows "homogeneous (fst (item_check s k d))"
proof (cases "stack_bounds s")
  case None
  with assms have "entries s = []"
    by (cases "entries s") (simp_all add: homogeneous_def)
  with None show ?thesis
    by (simp add: item_check_fst homogeneous_def)
next
  case (Some b)
  with assms show ?thesis
    by (simp add: item_check_fst)
qed

lemma stack_type_bounds_update:
  "stack_type (s\<lparr>stack_bounds := x\<rparr>) = stack_type s"
  by (simp add: stack_type_def top_entry_def)

lemma item_check_unset:
  "stack_bounds s = None \<Longrightarrow>
   item_check s k d =
     (if stack_type s \<noteq> None \<and> Some (type_of d) \<noteq> stack_type s
      then (s\<lparr>stack_bounds := Some (layer_bounds d)\<rparr>,
            Some (AssertionError ''SheetStack must only contain one type of SheetLayer.''))
      else (s\<lparr>stack_bounds := Some (layer_bounds d)\<rparr>, None))"
  by (simp add: item_check_def stack_type_bounds_update NdMapping_item_check_def)

lemma item_check_set:
  "stack_bounds s = Some b \<Longrightarrow>
   item_check s k d =
     (if lbrt (layer_bounds d) \<noteq> lbrt b
      then (s, Some (AssertionError ''All SheetLayer elements must have matching bounds.''))
      else if stack_type s \<noteq> None \<and> Some (type_of d) \<noteq> stack_type s
      then (s, Some (AssertionError ''SheetStack must only contain one type of SheetLayer.''))
      else (s, None))"
  by (simp add: item_check_def NdMapping_item_check_def)

lemma item_check_passed:
  assumes "snd (item_check s k d) = None"
  shows "Some (lbrt (layer_bounds d)) = map_option lbrt (stack_bounds (fst (item_check s k d)))"
    and "entries s \<noteq> [] \<Longrightarrow> type_of d = type_of (snd (last (entries s)))"
proof -
  have st: "stack_type s = None \<or> Some (type_of d) = stack_type s"
  proof (cases "stack_bounds s")
    case None
    from assms show ?thesis
      unfolding item_check_unset [OF None] by (simp split: if_splits)
  next
    case (Some b)
    from assms show ?thesis
      unfolding item_check_set [OF Some] by (simp split: if_splits)
  qed
  show "Some (lbrt (layer_bounds d)) = map_option lbrt (stack_bounds (fst (item_check s k d)))"
  proof (cases "stack_bounds s")
    case None
    then show ?thesis by (simp add: item_check_fst)
  next
    case (Some b)
    from assms have "lbrt (layer_bounds d) = lbrt b"
      unfolding item_check_set [OF Some] by (simp split: if_splits)
    with Some show ?thesis by (simp add: item_check_fst)
  qed
  assume "entries s \<noteq> []"
  with st show "type_of d = type_of (snd (last (entries s)))"
    by (simp add: stack_type_def top_entry_def)
qed

lemma add_item_fst:
  "fst (add_item s k d) =
     (if snd (item_check s k d) = None
      then (fst (item_check s k d))\<lparr>entries := update_item (entries s) k d\<rparr>
      else fst (item_check s k d))"
proof (cases "item_check s k d")
  case (Pair s1 r)
  have "entries (fst (item_check s k d)) = entries s"
    by (simp add: item_check_fst)
  with Pair show ?thesis
    by (cases r) (simp_all add: add_item_def)
qed

lemma homogeneous_step:
  assumes "homogeneous s"
  shows "homogeneous (fst (add_item s k d))"
proof (cases "snd (item_check s k d) = None")
  case False
  then have "fst (add_item s k d) = fst (item_check s k d)"
    by (simp only: add_item_fst if_False)
  then show ?thesis
    using homogeneous_item_check [OF assms, of k d] by simp
next
  case True
  let ?s1 = "fst (item_check s k d)"
  have h1: "homogeneous ?s1" using assms by (rule homogeneous_item_check)
  have e1: "entries ?s1 = entries s" by (simp add: item_check_fst)
  note ok = item_check_passed [OF True]
  have ty: "type_of (snd e) = type_of d" if "e \<in> set (entries s)" for e
  proof -
    from that have ne: "entries s \<noteq> []" by auto
    then have "last (entries s) \<in> set (entries s)" by simp
    with assms that have "type_of (snd e) = type_of (snd (last (entries s)))"
      unfolding homogeneous_iff by blast
    with ok(2) [OF ne] show ?thesis by simp
  qed
  have bd: "Some (lbrt (layer_bounds (snd e))) = map_option lbrt (stack_bounds ?s1)"
    if "e \<in> set (entries s)" for e
    using h1 that unfolding homogeneous_iff e1 by blast
  have mem: "e = (k, d) \<or> e \<in> set (entries s)" if "e \<in> set (update_item (entries s) k d)" for e
    using that by (auto simp: update_item_def)
  have "homogeneous (?s1\<lparr>entries := update_item (entries s) k d\<rparr>)"
    unfolding homogeneous_iff
  proof (intro conjI ballI)
    fix e assume "e \<in> set (entries (?s1\<lparr>entries := update_item (entries s) k d\<rparr>))"
    then have "e = (k, d) \<or> e \<in> set (entries s)" using mem by simp
    then show "Some (lbrt (layer_bounds (snd e)))
                 = map_option lbrt (stack_bounds (?s1\<lparr>entries := update_item (entries s) k d\<rparr>))"
    proof
      assume "e = (k, d)"
      with ok(1) show ?thesis by simp
    next
      assume "e \<in> set (entries s)"
      from bd [OF this] show ?thesis by simp
    qed
  next
    fix e e' assume "e \<in> set (entries (?s1\<lparr>entries := update_item (entries s) k d\<rparr>))"
      and "e' \<in> set (entries (?s1\<lparr>entries := update_item (entries s) k d\<rparr>))"
    then have "e = (k, d) \<or> e \<in> set (entries s)" "e' = (k, d) \<or> e' \<in> set (entries s)"
      using mem by simp_all
    then have "type_of (snd e) = type_of d" "type_of (snd e') = type_of d"
      using ty by fastforce+
    then show "type_of (snd e) = type_of (snd e')" by simp
  qed
  with True show ?thesis by (simp add: add_item_fst)
qed

lemma reachable_homogeneous: "reachable s \<Longrightarrow> homogeneous s"
proof (induction rule: reachable.induct)
  case (init bnds)
  show ?case by (simp add: homogeneous_def)
next
  case (step s k d)
  from step.IH show ?case by (rule homogeneous_step)
qed

lemma add_item_bounds_mismatch:
  assumes "stack_bounds s = Some b" and "lbrt (layer_bounds d) \<noteq> lbrt b"
  shows "add_item s k d = (s, Some (AssertionError ''All SheetLayer elements must have matching bounds.''))"
proof -
  from assms have "item_check s k d
      = (s, Some (AssertionError ''All SheetLayer elements must have matching bounds.''))"
    by (simp add: item_check_def)
  then show ?thesis by (simp add: add_item_def)
qed

lemma add_item_type_mismatch:
  assumes "homogeneous s" and "e \<in> set (entries s)" and "type_of d \<noteq> type_of (snd e)"
  shows "\<exists>err. add_item s k d = (s, Some (AssertionError err))"
proof -
  from assms(2) have ne: "entries s \<noteq> []" by auto
  then have "last (entries s) \<in> set (entries s)" by simp
  then have "type_of (snd e) = type_of (snd (last (entries s)))"
    using assms(1,2) unfolding homogeneous_iff by blast
  with assms(3) have t: "type_of d \<noteq> type_of (snd (last (entries s)))"
    by simp
  from assms(1,2) have "Some (lbrt (layer_bounds (snd e))) = map_option lbrt (stack_bounds s)"
    unfolding homogeneous_iff by blast
  then obtain b where b: "stack_bounds s = Some b"
    by (cases "stack_bounds s") simp_all
  have "stack_type s = Some (type_of (snd (last (entries s))))"
    using ne by (simp add: stack_type_def top_entry_def)
  with t b have "\<exists>err. item_check s k d = (s, Some (AssertionError err))"
    by (simp add: item_check_def)
  then obtain err where "item_check s k d = (s, Some (AssertionError err))" by blast
  then have "add_item s k d = (s, Some (AssertionError err))" by (simp add: add_item_def)
  then show ?thesis by blast
qed


text \<open>
  Claim C7. In every state a stack can reach by insertions, all entries have the class
  of the other entries and the bounds of the stack. In such a state an insertion of a
  layer whose class differs from that of an entry, or whose bounds differ from the
  stack's, raises an AssertionError and leaves the stack as it was.
\<close>

theorem SheetStack_homogeneous:
  assumes "reachable s"
  shows "homogeneous s
     \<and> (\<forall>k d. (\<exists>e \<in> set (entries s). type_of d \<noteq> type_of (snd e)) \<longrightarrow>
           (\<exists>err. add_item s k d = (s, Some (AssertionError err))))
     \<and> (\<forall>k d b. stack_bounds s = Some b \<and> lbrt (layer_bounds d) \<noteq> lbrt b \<longrightarrow>
           (\<exists>err. add_item s k d = (s, Some (AssertionError err))))"
proof -
  have h: "homogeneous s" using assms by (rule reachable_homogeneous)
  have "\<exists>err. add_item s k d = (s, Some (AssertionError err))"
    if "\<exists>e \<in> set (entries s). type_of d \<noteq> type_of (snd e)" for k d
    using add_item_type_mismatch [OF h] that by blast
  moreover have "\<exists>err. add_item s k d = (s, Some (AssertionError err))"
    if "stack_bounds s = Some b \<and> lbrt (layer_bounds d) \<noteq> lbrt b" for k d b
    using add_item_bounds_mismatch [of s b d k] that by simp
  ultimately show ?thesis using h by blast
qed

theorem SheetStack_homogeneous_witness:
  "reachable \<lparr>stack_bounds = Some (BoundingBox (0, 0, 1, 1)),
              entries = [(0 :: nat, Points [] (SheetLayer_init (BoundingBox (0, 0, 1, 1)) no_kwargs))]\<rparr>
   \<and> homogeneous \<lparr>stack_bounds = Some (BoundingBox (0, 0, 1, 1)),
              entries = [(0 :: nat, Points [] (SheetLayer_init (BoundingBox (0, 0, 1, 1)) no_kwargs))]\<rparr>
   \<and> (\<exists>err. add_item \<lparr>stack_bounds = Some (BoundingBox (0, 0, 1, 1)),
              entries = [(0 :: nat, Points [] (SheetLayer_init (BoundingBox (0, 0, 1, 1)) no_kwargs))]\<rparr>
            1 (Contours [] (SheetLayer_init (BoundingBox (0, 0, 1, 1)) no_kwargs))
        = (\<lparr>stack_bounds = Some (BoundingBox (0, 0, 1, 1)),
              entries = [(0 :: nat, Points [] (SheetLayer_init (BoundingBox (0, 0, 1, 1)) no_kwargs))]\<rparr>,
           Some (AssertionError err)))
   \<and> (\<exists>err. add_item \<lparr>stack_bounds = Some (BoundingBox (0, 0, 1, 1)),
              entries = [(0 :: nat, Points [] (SheetLayer_init (BoundingBox (0, 0, 1, 1)) no_kwargs))]\<rparr>
            1 (Points [] (SheetLayer_init (BoundingBox (0, 0, 2, 2)) no_kwargs))
        = (\<lparr>stack_bounds = Some (BoundingBox (0, 0, 1, 1)),
              entries = [(0 :: nat, Points [] (SheetLayer_init (BoundingBox (0, 0, 1, 1)) no_kwargs))]\<rparr>,
           Some (AssertionError err)))"
proof -
  let ?u = "SheetLayer_init (BoundingBox (0, 0, 1, 1)) no_kwargs"
  let ?w = "SheetLayer_init (BoundingBox (0, 0, 2, 2)) no_kwargs"
  let ?e = "\<lparr>stack_bounds = None, entries = [] :: (nat \<times> layer) list\<rparr>"
  let ?s = "\<lparr>stack_bounds = Some (BoundingBox (0, 0, 1, 1)), entries = [(0 :: nat, Points [] ?u)]\<rparr>"
  have bu: "bounds ?u = BoundingBox (0, 0, 1, 1)" and bw: "bounds ?w = BoundingBox (0, 0, 2, 2)"
    by (simp_all add: SheetLayer_init_def)
  have "item_check ?e 0 (Points [] ?u) = (?e\<lparr>stack_bounds := Some (BoundingBox (0, 0, 1, 1))\<rparr>, None)"
    by (simp add: item_check_unset stack_type_def bu)
  then have "fst (add_item ?e 0 (Points [] ?u)) = ?s"
    by (simp add: add_item_def update_item_def)
  moreover have "reachable (fst (add_item ?e 0 (Points [] ?u)))"
    by (rule reachable.step [OF reachable.init])
  ultimately have r: "reachable ?s" by simp
  note t = SheetStack_homogeneous [OF r]
  from t have "homogeneous ?s" by blast
  moreover from t have "(\<exists>e \<in> set (entries ?s). type_of (Contours [] ?u) \<noteq> type_of (snd e)) \<longrightarrow>
      (\<exists>err. add_item ?s 1 (Contours [] ?u) = (?s, Some (AssertionError err)))"
    by blast
  then have "\<exists>err. add_item ?s 1 (Contours [] ?u) = (?s, Some (AssertionError err))"
    by simp
  moreover from t have "stack_bounds ?s = Some (BoundingBox (0, 0, 1, 1))
        \<and> lbrt (layer_bounds (Points [] ?w)) \<noteq> lbrt (BoundingBox (0, 0, 1, 1)) \<longrightarrow>
      (\<exists>err. add_item ?s 1 (Points [] ?w) = (?s, Some (AssertionError err)))"
    by blast
  then have "\<exists>err. add_item ?s 1 (Points [] ?w) = (?s, Some (AssertionError err))"
    by (simp add: bw)
  ultimately show ?thesis using r by blast
qed

section \<open>Properties of ProjectionGrid\<close>

lemma transform_indices_pair:
  "transform_indices g [x, y]
     = Inr [fst (closest_cell_center g x 0), snd (closest_cell_center g 0 y)]"
  by (simp add: transform_indices_def transform_value_def)

text \<open>
  Claim C9. When the coordinate pair lies outside the grid's bounds, \<open>_add_item\<close>
  appends the warning that the data could not be added and nevertheless stores the
  data, under the transformed coordinates; the item is the last entry of the mapping
  afterwards. The item is one the mapping's own item check accepts.
\<close>

theorem ProjectionGrid_add_item_outside:
  assumes "\<not> contains (grid_bounds g) x y" and "data_type g d"
  shows "ProjectionGrid_add_item g [x, y] d =
           (g\<lparr>grid_entries :=
                 update_item (grid_entries g)
                   [fst (closest_cell_center g x 0), snd (closest_cell_center g 0 y)] d,
               warnings := warnings g @
                 [''Specified coordinate is outside grid bounds, data could not be added'']\<rparr>,
            None)
         \<and> last (grid_entries (fst (ProjectionGrid_add_item g [x, y] d)))
             = ([fst (closest_cell_center g x 0), snd (closest_cell_center g 0 y)], d)"
proof -
  let ?w = "warning g ''Specified coordinate is outside grid bounds, data could not be added''"
  have t: "transform_indices ?w [x, y]
      = Inr [fst (closest_cell_center g x 0), snd (closest_cell_center g 0 y)]"
    by (simp add: transform_indices_pair warning_def)
  have c: "NdMapping_item_check (data_type ?w) [x, y] d = None"
    using assms(2) by (simp add: NdMapping_item_check_def warning_def)
  have "ProjectionGrid_add_item g [x, y] d =
      (?w\<lparr>grid_entries := update_item (grid_entries ?w)
          [fst (closest_cell_center g x 0), snd (closest_cell_center g 0 y)] d\<rparr>, None)"
    using assms(1) by (simp add: ProjectionGrid_add_item_def t c Let_def)
  then show ?thesis
    by (simp add: warning_def update_item_def)
qed

theorem ProjectionGrid_add_item_outside_witness:
  "\<not> contains (BoundingBox (0, 0, 1, 1)) 2 3
   \<and> ProjectionGrid_add_item
       \<lparr>grid_bounds = BoundingBox (0, 0, 1, 1), closest_cell_center = (\<lambda>x y. (x, y)),
         data_type = (\<lambda>d. True), grid_entries = [], warnings = []\<rparr> [2, 3] (7 :: nat)
     = (\<lparr>grid_bounds = BoundingBox (0, 0, 1, 1), closest_cell_center = (\<lambda>x y. (x, y)),
         data_type = (\<lambda>d. True), grid_entries = [([2, 3], 7)],
         warnings = [''Specified coordinate is outside grid bounds, data could not be added'']\<rparr>,
        None)"
proof -
  let ?g = "\<lparr>grid_bounds = BoundingBox (0, 0, 1, 1), closest_cell_center = (\<lambda>x y. (x, y)),
         data_type = (\<lambda>d. True), grid_entries = [] :: (real list \<times> nat) list,
         warnings = []\<rparr>"
  have out: "\<not> contains (grid_bounds ?g) 2 3"
    by (simp add: contains_def)
  have ok: "data_type ?g 7" by simp
  from ProjectionGrid_add_item_outside [OF out ok] out show ?thesis
    by (simp add: update_item_def)
qed

section \<open>Properties of SheetViewPlot\<close>

lemma update_frame_clamp:
  "len p \<le> n \<Longrightarrow> update_frame p n = update_frame p (len p - 1)"
  by (simp add: update_frame_def)

lemma py_index_last:
  "xs \<noteq> [] \<Longrightarrow> py_index xs (int (length xs) - 1) = Inr (last xs)"
  by (cases xs rule: rev_cases) (simp_all add: py_index_def nat_diff_distrib')

lemma call_fields:
  "stack (call p) = stack p" "zorder (call p) = zorder p" "show_title (call p) = show_title p"
  "normalize_individually (call p) = normalize_individually p"
  "im (handles (call p)) \<noteq> None"
  "show_title p \<Longrightarrow> title_text (handles (call p)) \<noteq> None"
  by (simp_all add: call_def Let_def)

lemma update_frame_drawn:
  assumes "stack p \<noteq> []" and "im (handles p) \<noteq> None"
    and "show_title p \<Longrightarrow> title_text (handles p) \<noteq> None"
  shows "snd (update_frame p (len p - 1)) = None"
proof -
  from assms(2) obtain i where i: "im (handles p) = Some i" by blast
  have ix: "py_index (stack p) (len p - 1) = Inr (last (stack p))"
    using py_index_last [OF assms(1)] by (simp add: len_def)
  show ?thesis
  proof (cases "show_title p")
    case True
    with assms(3) obtain t where t: "title_text (handles p) = Some t" by blast
    show ?thesis
    proof (cases "zorder p = 0")
      case True
      with \<open>show_title p\<close> t i ix show ?thesis
        by (simp add: update_frame_def Let_def)
    next
      case False
      with i ix show ?thesis
        by (simp add: update_frame_def Let_def)
    qed
  next
    case False
    with i ix show ?thesis
      by (simp add: update_frame_def Let_def)
  qed
qed

lemma len_call: "len (call p) = len p"
  by (simp add: len_def call_fields)

lemma plot_getitem_last:
  assumes "stack p \<noteq> []"
  shows "plot_getitem p (len p) = plot_getitem p (len p - 1)"
    and "snd (plot_getitem p (len p)) = None"
proof -
  have e: "plot_getitem p (len p) = update_frame (call p) (len (call p) - 1)"
    using update_frame_clamp [of "call p" "len p"] by (simp add: plot_getitem_def len_call)
  then show "plot_getitem p (len p) = plot_getitem p (len p - 1)"
    by (simp add: plot_getitem_def len_call)
  have "snd (update_frame (call p) (len (call p) - 1)) = None"
    by (rule update_frame_drawn) (simp_all add: call_fields assms)
  with e show "snd (plot_getitem p (len p)) = None" by simp
qed




section \<open>Properties of HCS\<close>

lemma sequence_map_Inr:
  "(\<And>x. x \<in> set xs \<Longrightarrow> f x = Inr (g x)) \<Longrightarrow> sequence (map f xs) = Inr (map g xs)"
  by (induction xs) simp_all

lemma zip_replicate_right:
  "length xs = n \<Longrightarrow> zip xs (replicate n c) = map (\<lambda>x. (x, c)) xs"
proof (induction xs arbitrary: n)
  case Nil
  then show ?case by simp
next
  case (Cons x xs)
  then obtain k where "n = Suc k" by (cases n) auto
  with Cons show ?case by simp
qed

lemma stretch_same: "length xs = n \<Longrightarrow> stretch n xs = xs"
  by (simp add: stretch_def)

lemma broadcast_to_same:
  "length cells = m \<Longrightarrow> list_all (\<lambda>row. length row = n) cells \<Longrightarrow>
   broadcast_to (m, n) cells = cells"
  by (simp add: broadcast_to_def stretch_def list_all_iff map_idI)

lemma broadcast_shape_same: "broadcast_shape a a = Some a"
  by (simp add: broadcast_shape_def broadcast_dim_def)

lemma all_ones:
  assumes "length cells = m" and "list_all (\<lambda>row. length row = n) cells"
    and "list_all (list_all (\<lambda>x. x = a)) cells"
  shows "cells = replicate m (replicate n a)"
proof (rule replicate_eqI [OF assms(1)])
  fix row assume r: "row \<in> set cells"
  with assms(2) have "length row = n" by (simp add: list_all_iff)
  moreover from r assms(3) have "\<And>y. y \<in> set row \<Longrightarrow> y = a" by (simp add: list_all_iff)
  ultimately show "row = replicate n a" by (rule replicate_eqI)
qed

lemma vectorize3_full:
  assumes "length hs = m" and "list_all (\<lambda>row. length row = n) hs"
    and f: "\<And>x. x \<in> set (concat hs) \<Longrightarrow> f x a b = Inr (g x)"
  shows "vectorize3 f (m, n) hs (m, n) (replicate m (replicate n a))
           (m, n) (replicate m (replicate n b))
         = Inr (map (map g) hs)"
proof -
  have bt: "broadcast_to (m, n) hs = hs"
    using assms(1,2) by (rule broadcast_to_same)
  have br: "broadcast_to (m, n) (replicate m (replicate n a)) = replicate m (replicate n a)"
    "broadcast_to (m, n) (replicate m (replicate n b)) = replicate m (replicate n b)"
    by (rule broadcast_to_same; simp add: list_all_iff)+
  have rows: "sequence (map (\<lambda>(x, y, z). f x y z) (zip row (zip (replicate n a) (replicate n b))))
      = Inr (map g row)" if "row \<in> set hs" for row
  proof -
    from that assms(2) have "length row = n" by (simp add: list_all_iff)
    then have "map (\<lambda>(x, y, z). f x y z) (zip row (zip (replicate n a) (replicate n b)))
        = map (\<lambda>x. f x a b) row"
      by (simp add: zip_replicate_right comp_def)
    moreover have "sequence (map (\<lambda>x. f x a b) row) = Inr (map g row)"
      by (rule sequence_map_Inr) (use that f in auto)
    ultimately show ?thesis by simp
  qed
  have "map (\<lambda>(ra, rb, rc). sequence (map (\<lambda>(x, y, z). f x y z) (zip ra (zip rb rc))))
          (zip hs (zip (replicate m (replicate n a)) (replicate m (replicate n b))))
        = map (\<lambda>row. sequence (map (\<lambda>(x, y, z). f x y z)
                 (zip row (zip (replicate n a) (replicate n b))))) hs"
    by (simp add: zip_replicate_right [OF assms(1)] comp_def)
  also have "\<dots> = map (\<lambda>row. Inr (map g row)) hs"
    using rows by (simp cong: map_cong)
  finally have "sequence (map (\<lambda>(ra, rb, rc). sequence (map (\<lambda>(x, y, z). f x y z) (zip ra (zip rb rc))))
          (zip hs (zip (replicate m (replicate n a)) (replicate m (replicate n b)))))
        = Inr (map (map g) hs)"
    by (simp add: sequence_map_Inr)
  then show ?thesis
    by (simp only: vectorize3_def broadcast_shape_same bt br option.case)
qed

lemma N_nonzero:
  assumes "concat (dv_data hue) \<noteq> []" and "norm_factor hue \<noteq> 0"
  shows "N hue = Inr (map (map (\<lambda>x. Fin ((x - data_min (dv_data hue)) / norm_factor hue)))
                     (dv_data hue))"
proof (cases "dv_cyclic_range hue")
  case None
  with assms show ?thesis
    by (simp add: N_def normalize_def norm_factor_def np_divide_def)
next
  case (Some c)
  with assms show ?thesis
    by (simp add: N_def normalize_def norm_factor_def np_divide_def)
qed

lemma HCS_two_layers:
  assumes layers: "ov_layers ov = [hue, conf]"
    and wh: "wf_view hue" and wc: "wf_view conf" and sh: "dv_shape conf = dv_shape hue"
    and ones: "list_all (list_all (\<lambda>x. x = 1)) (dv_data conf)"
    and ne: "concat (dv_data hue) \<noteq> []" and nf: "norm_factor hue \<noteq> 0"
  shows "HCS_process HCS_defaults ov =
           Inr [\<lparr>rgb_data = pure_hue_rgb (range_normalized hue), rgb_bounds = dv_bounds hue,
                  rgb_roi_bounds = ov_roi_bounds ov, rgb_label = dv_label hue @ '' HCS Plot''\<rparr>]"
proof -
  obtain m n where mn: "dv_shape hue = (m, n)" by (cases "dv_shape hue")
  let ?h = "map (map (\<lambda>x. Fin (clip 0 1 ((x - data_min (dv_data hue)) / norm_factor hue))))
              (dv_data hue)"
  have c1: "dv_data conf = replicate m (replicate n 1)"
    using wc ones sh mn by (intro all_ones) (simp_all add: wf_view_def)
  have h: "map (map (np_clip 0 1))
             (map (map (\<lambda>x. Fin ((x - data_min (dv_data hue)) / norm_factor hue))) (dv_data hue))
           = ?h"
    by (simp add: comp_def)
  have lh: "length ?h = m" "list_all (\<lambda>row. length row = n) ?h"
    using wh mn by (simp_all add: wf_view_def list_all_iff)
  have v: "vectorize3 hsv_to_rgb_ext (m, n) ?h (m, n) (replicate m (replicate n 1))
             (m, n) (replicate m (replicate n 1))
           = Inr (map (map (\<lambda>y. hsv_to_rgb (case y of Fin z \<Rightarrow> z | _ \<Rightarrow> 0) 1 1)) ?h)"
    by (rule vectorize3_full [OF lh]) auto
  have r: "map (map (\<lambda>y. hsv_to_rgb (case y of Fin z \<Rightarrow> z | _ \<Rightarrow> 0) 1 1)) ?h
        = pure_hue_rgb (range_normalized hue)"
    by (simp add: pure_hue_rgb_def range_normalized_def comp_def)
  show ?thesis
    by (simp add: HCS_process_def layers N_nonzero [OF ne nf] Let_def HCS_defaults_def
        sh mn c1 h clip_def [of 0 1 1] v r del: map_map)
qed


lemma hsv_values:
  "hsv_to_rgb 0 1 1 = (1, 0, 0)" "hsv_to_rgb 1 1 1 = (1, 0, 0)"
  "hsv_to_rgb (1 / 4) 1 1 = (1 / 2, 1, 0)" "hsv_to_rgb (1 / 2) 1 1 = (0, 1, 1)"
  by (simp_all add: hsv_to_rgb_def py_int_def Let_def)

text \<open>
  Claim C4. The claim: for an overlay of two views with hue in [0,1], confidence
  identically 1, default multipliers and no flip, the output is the HSV-to-RGB
  conversion of the hue values at full saturation and value. \<open>HCS._process\<close> converts
  \<open>hue.N\<close>, the range-normalized hue, not the hue itself: the hues 1/4 and 1/2 are
  normalized to 0 and 1, and both come out red, where the conversion of the values
  themselves gives (1/2, 1, 0) and (0, 1, 1).
\<close>

theorem HCS_process_hue_counterexample:
  "HCS_process HCS_defaults
     \<lparr>ov_layers =
        [\<lparr>dv_data = [[1 / 4, 1 / 2]], dv_shape = (1, 2), dv_bounds = BoundingBox (0, 0, 1, 1),
          dv_label = ''hue'', dv_cyclic_range = None\<rparr>,
         \<lparr>dv_data = [[1, 1]], dv_shape = (1, 2), dv_bounds = BoundingBox (0, 0, 1, 1),
          dv_label = ''confidence'', dv_cyclic_range = None\<rparr>],
      ov_roi_bounds = BoundingBox (0, 0, 1, 1)\<rparr>
   = Inr [\<lparr>rgb_data = [[(1, 0, 0), (1, 0, 0)]], rgb_bounds = BoundingBox (0, 0, 1, 1),
           rgb_roi_bounds = BoundingBox (0, 0, 1, 1), rgb_label = ''hue HCS Plot''\<rparr>]
   \<and> pure_hue_rgb [[1 / 4, 1 / 2]] = [[(1 / 2, 1, 0), (0, 1, 1)]]
   \<and> [[(1, 0, 0), (1, 0, 0)]] \<noteq> pure_hue_rgb [[1 / 4, 1 / 2]]"
proof -
  define hue where "hue = \<lparr>dv_data = [[1 / 4, 1 / 2]], dv_shape = (1, 2),
      dv_bounds = BoundingBox (0, 0, 1, 1), dv_label = ''hue'', dv_cyclic_range = None\<rparr>"
  define conf where "conf = \<lparr>dv_data = [[1, 1]], dv_shape = (1, 2),
      dv_bounds = BoundingBox (0, 0, 1, 1), dv_label = ''confidence'', dv_cyclic_range = None\<rparr>"
  define ov where "ov = \<lparr>ov_layers = [hue, conf], ov_roi_bounds = BoundingBox (0, 0, 1, 1)\<rparr>"
  have hd: "dv_data hue = [[1 / 4, 1 / 2]]" and hs: "dv_shape hue = (1, 2)"
    and hc: "dv_cyclic_range hue = None" and hb: "dv_bounds hue = BoundingBox (0, 0, 1, 1)"
    and hl: "dv_label hue = ''hue''"
    by (simp_all add: hue_def)
  have cd: "dv_data conf = [[1, 1]]" and cs: "dv_shape conf = (1, 2)"
    by (simp_all add: conf_def)
  have ol: "ov_layers ov = [hue, conf]" and orb: "ov_roi_bounds ov = BoundingBox (0, 0, 1, 1)"
    by (simp_all add: ov_def)
  have mm: "data_min [[1 / 4, 1 / 2]] = 1 / 4" "data_max [[1 / 4, 1 / 2]] = 1 / 2"
    by (simp_all add: data_min_def data_max_def)
  have nf: "norm_factor hue = 1 / 4"
    by (simp add: norm_factor_def hd hc mm)
  have rn: "range_normalized hue = [[0, 1]]"
    by (simp add: range_normalized_def hd nf mm clip_def)
  have wh: "wf_view hue" and wc: "wf_view conf"
    by (simp_all add: wf_view_def hd hs cd cs)
  have sh: "dv_shape conf = dv_shape hue" by (simp add: hs cs)
  have unit: "list_all (list_all (\<lambda>x. 0 \<le> x \<and> x \<le> 1)) (dv_data hue)"
    by (simp add: hd)
  have ones: "list_all (list_all (\<lambda>x. x = 1)) (dv_data conf)"
    by (simp add: cd)
  have ne: "concat (dv_data hue) \<noteq> []" by (simp add: hd)
  have nz: "norm_factor hue \<noteq> 0" by (simp add: nf)
  have "HCS_process HCS_defaults ov =
      Inr [\<lparr>rgb_data = pure_hue_rgb (range_normalized hue), rgb_bounds = dv_bounds hue,
             rgb_roi_bounds = ov_roi_bounds ov, rgb_label = dv_label hue @ '' HCS Plot''\<rparr>]"
    using ol wh wc sh ones ne nz by (rule HCS_two_layers)
  then have run: "HCS_process HCS_defaults ov =
      Inr [\<lparr>rgb_data = [[(1, 0, 0), (1, 0, 0)]], rgb_bounds = BoundingBox (0, 0, 1, 1),
           rgb_roi_bounds = BoundingBox (0, 0, 1, 1), rgb_label = ''hue HCS Plot''\<rparr>]"
    by (simp add: rn hb hl orb pure_hue_rgb_def hsv_values)
  have "pure_hue_rgb [[1 / 4, 1 / 2]] = [[(1 / 2, 1, 0), (0, 1, 1)]]"
    by (simp add: pure_hue_rgb_def hsv_values)
  with run show ?thesis
    unfolding ov_def hue_def conf_def by simp
qed

text \<open>
  Claim C4, as amended. For an overlay of exactly two views of one shape, with hue
  values in [0,1] (at least one of them), confidence identically 1, default
  multipliers and no flip, and a norm factor of the hue other than zero, the output is
  the HSV-to-RGB conversion at full saturation and value of the range-normalized hue,
  with the bounds of the hue layer, the region of interest of the overlay and the
  label of the hue followed by " HCS Plot".
\<close>

theorem HCS_process_normalized_hue:
  assumes "ov_layers ov = [hue, conf]"
    and "wf_view hue" and "wf_view conf" and "dv_shape conf = dv_shape hue"
    and "list_all (list_all (\<lambda>x. 0 \<le> x \<and> x \<le> 1)) (dv_data hue)"
    and "list_all (list_all (\<lambda>x. x = 1)) (dv_data conf)"
    and "concat (dv_data hue) \<noteq> []" and "norm_factor hue \<noteq> 0"
  shows "HCS_process HCS_defaults ov =
           Inr [\<lparr>rgb_data = pure_hue_rgb (range_normalized hue), rgb_bounds = dv_bounds hue,
                  rgb_roi_bounds = ov_roi_bounds ov, rgb_label = dv_label hue @ '' HCS Plot''\<rparr>]"
  using assms(1-4,6-8) by (rule HCS_two_layers)

theorem HCS_process_normalized_hue_witness:
  "HCS_process HCS_defaults
     \<lparr>ov_layers =
        [\<lparr>dv_data = [[0, 1 / 2], [1, 1 / 4]], dv_shape = (2, 2), dv_bounds = BoundingBox (0, 0, 1, 1),
          dv_label = ''hue'', dv_cyclic_range = None\<rparr>,
         \<lparr>dv_data = [[1, 1], [1, 1]], dv_shape = (2, 2), dv_bounds = BoundingBox (0, 0, 1, 1),
          dv_label = ''confidence'', dv_cyclic_range = None\<rparr>],
      ov_roi_bounds = BoundingBox (0, 0, 1, 1)\<rparr>
   = Inr [\<lparr>rgb_data = [[(1, 0, 0), (0, 1, 1)], [(1, 0, 0), (1 / 2, 1, 0)]],
           rgb_bounds = BoundingBox (0, 0, 1, 1),
           rgb_roi_bounds = BoundingBox (0, 0, 1, 1), rgb_label = ''hue HCS Plot''\<rparr>]"
proof -
  define hue where "hue = \<lparr>dv_data = [[0, 1 / 2], [1, 1 / 4]], dv_shape = (2, 2),
      dv_bounds = BoundingBox (0, 0, 1, 1), dv_label = ''hue'', dv_cyclic_range = None\<rparr>"
  define conf where "conf = \<lparr>dv_data = [[1, 1], [1, 1]], dv_shape = (2, 2),
      dv_bounds = BoundingBox (0, 0, 1, 1), dv_label = ''confidence'', dv_cyclic_range = None\<rparr>"
  define ov where "ov = \<lparr>ov_layers = [hue, conf], ov_roi_bounds = BoundingBox (0, 0, 1, 1)\<rparr>"
  have hd: "dv_data hue = [[0, 1 / 2], [1, 1 / 4]]" and hs: "dv_shape hue = (2, 2)"
    and hc: "dv_cyclic_range hue = None" and hb: "dv_bounds hue = BoundingBox (0, 0, 1, 1)"
    and hl: "dv_label hue = ''hue''"
    by (simp_all add: hue_def)
  have cd: "dv_data conf = [[1, 1], [1, 1]]" and cs: "dv_shape conf = (2, 2)"
    by (simp_all add: conf_def)
  have ol: "ov_layers ov = [hue, conf]" and orb: "ov_roi_bounds ov = BoundingBox (0, 0, 1, 1)"
    by (simp_all add: ov_def)
  have mm: "data_min [[0, 1 / 2], [1, 1 / 4]] = 0" "data_max [[0, 1 / 2], [1, 1 / 4]] = 1"
    by (simp_all add: data_min_def data_max_def)
  have nf: "norm_factor hue = 1"
    by (simp add: norm_factor_def hd hc mm)
  have rn: "range_normalized hue = [[0, 1 / 2], [1, 1 / 4]]"
    by (simp add: range_normalized_def hd nf mm clip_def)
  have wh: "wf_view hue" and wc: "wf_view conf"
    by (simp_all add: wf_view_def hd hs cd cs)
  have sh: "dv_shape conf = dv_shape hue" by (simp add: hs cs)
  have unit: "list_all (list_all (\<lambda>x. 0 \<le> x \<and> x \<le> 1)) (dv_data hue)"
    by (simp add: hd)
  have ones: "list_all (list_all (\<lambda>x. x = 1)) (dv_data conf)"
    by (simp add: cd)
  have ne: "concat (dv_data hue) \<noteq> []" by (simp add: hd)
  have nz: "norm_factor hue \<noteq> 0" by (simp add: nf)
  have "HCS_process HCS_defaults ov =
      Inr [\<lparr>rgb_data = pure_hue_rgb (range_normalized hue), rgb_bounds = dv_bounds hue,
             rgb_roi_bounds = ov_roi_bounds ov, rgb_label = dv_label hue @ '' HCS Plot''\<rparr>]"
    using ol wh wc sh unit ones ne nz by (rule HCS_process_normalized_hue)
  then have run: "HCS_process HCS_defaults ov =
      Inr [\<lparr>rgb_data = [[(1, 0, 0), (0, 1, 1)], [(1, 0, 0), (1 / 2, 1, 0)]], rgb_bounds = BoundingBox (0, 0, 1, 1),
           rgb_roi_bounds = BoundingBox (0, 0, 1, 1), rgb_label = ''hue HCS Plot''\<rparr>]"
    by (simp add: rn hb hl orb pure_hue_rgb_def hsv_values)
  then show ?thesis
    unfolding ov_def hue_def conf_def .
qed

section \<open>Properties of the channel reduction\<close>

lemma frame_refl: "nv \<le> next_view h \<Longrightarrow> no \<le> next_overlay h \<Longrightarrow> frame nv no h h"
  by (simp add: frame_def)

lemma frame_trans: "frame nv no h h1 \<Longrightarrow> frame nv no h1 h2 \<Longrightarrow> frame nv no h h2"
  by (simp add: frame_def)

lemma frame_new_view:
  assumes "nv \<le> next_view h" and "no \<le> next_overlay h" and "new_view h v = (h', a)"
  shows "frame nv no h h'" and "nv \<le> a"
  using assms by (auto simp: frame_def new_view_def)

lemma frame_new_overlay:
  assumes "nv \<le> next_view h" and "no \<le> next_overlay h" and "new_overlay h ov = (h', a)"
  shows "frame nv no h h'" and "no \<le> a"
  using assms by (auto simp: frame_def new_overlay_def)

lemma frame_set_view:
  assumes "nv \<le> next_view h" and "no \<le> next_overlay h" and "nv \<le> a"
  shows "frame nv no h (h\<lparr>views := (views h)(a := v)\<rparr>)"
  using assms by (simp add: frame_def)

lemma frame_set_overlay:
  assumes "nv \<le> next_view h" and "no \<le> next_overlay h" and "no \<le> a"
  shows "frame nv no h (h\<lparr>overlays := (overlays h)(a := v)\<rparr>)"
  using assms by (simp add: frame_def)

lemma frameD: "frame nv no h h' \<Longrightarrow> nv \<le> next_view h' \<and> no \<le> next_overlay h'"
  by (simp add: frame_def)

lemma copy_view_frame:
  assumes "nv \<le> next_view h" and "no \<le> next_overlay h"
    and "\<forall>p \<in> set memo. nv \<le> snd p" and "copy_view h memo a = (h', memo', a')"
  shows "frame nv no h h' \<and> (\<forall>p \<in> set memo'. nv \<le> snd p) \<and> nv \<le> a'"
proof (cases "map_of memo a")
  case None
  obtain h1 a1 where n: "new_view h (views h a) = (h1, a1)" by (cases "new_view h (views h a)")
  from frame_new_view [OF assms(1,2) n] assms(3,4) None n show ?thesis
    by (auto simp: copy_view_def)
next
  case (Some b)
  then have "(a, b) \<in> set memo" by (rule map_of_SomeD)
  with assms Some show ?thesis
    by (auto simp: copy_view_def frame_refl)
qed

lemma copy_views_frame:
  assumes "nv \<le> next_view h" and "no \<le> next_overlay h"
    and "\<forall>p \<in> set memo. nv \<le> snd p" and "copy_views h memo as = (h', memo', as')"
  shows "frame nv no h h' \<and> (\<forall>p \<in> set memo'. nv \<le> snd p) \<and> (\<forall>a' \<in> set as'. nv \<le> a')"
  using assms
proof (induction as arbitrary: h memo h' memo' as')
  case Nil
  then show ?case by (simp add: frame_refl)
next
  case (Cons a as)
  obtain h1 memo1 a1 where c1: "copy_view h memo a = (h1, memo1, a1)"
    by (cases "copy_view h memo a")
  obtain h2 memo2 as2 where c2: "copy_views h1 memo1 as = (h2, memo2, as2)"
    by (cases "copy_views h1 memo1 as")
  from Cons.prems(4) c1 c2 have eq: "h' = h2" "memo' = memo2" "as' = a1 # as2" by simp_all
  note f1 = copy_view_frame [OF Cons.prems(1,2,3) c1]
  from f1 have g1: "nv \<le> next_view h1" "no \<le> next_overlay h1" by (simp_all add: frame_def)
  from f1 have m1: "\<forall>p \<in> set memo1. nv \<le> snd p" by simp
  note f2 = Cons.IH [OF g1 m1 c2]
  from f1 f2 show ?case
    unfolding eq by (auto intro: frame_trans)
qed

lemma copy_overlay_frame:
  assumes "nv \<le> next_view h" and "no \<le> next_overlay h"
    and "\<forall>p \<in> set vmemo. nv \<le> snd p" and "\<forall>p \<in> set omemo. no \<le> snd p"
    and "copy_overlay h vmemo omemo a = (h', vmemo', omemo', a')"
  shows "frame nv no h h' \<and> (\<forall>p \<in> set vmemo'. nv \<le> snd p)
         \<and> (\<forall>p \<in> set omemo'. no \<le> snd p) \<and> no \<le> a'"
proof (cases "map_of omemo a")
  case (Some b)
  then have "(a, b) \<in> set omemo" by (rule map_of_SomeD)
  with assms Some show ?thesis
    by (auto simp: copy_overlay_def frame_refl)
next
  case None
  obtain h1 vmemo1 ls where c1: "copy_views h vmemo (co_data (overlays h a)) = (h1, vmemo1, ls)"
    by (cases "copy_views h vmemo (co_data (overlays h a))")
  obtain h2 a2 where c2: "new_overlay h1 ((overlays h a)\<lparr>co_data := ls\<rparr>) = (h2, a2)"
    by (cases "new_overlay h1 ((overlays h a)\<lparr>co_data := ls\<rparr>)")
  from assms(5) None c1 c2 have eq: "h' = h2" "vmemo' = vmemo1" "omemo' = (a, a2) # omemo" "a' = a2"
    by (auto simp: copy_overlay_def)
  note f1 = copy_views_frame [OF assms(1,2,3) c1]
  from f1 have g1: "nv \<le> next_view h1" "no \<le> next_overlay h1" by (simp_all add: frame_def)
  note f2 = frame_new_overlay [OF g1 c2]
  from f1 f2 assms(4) show ?thesis
    unfolding eq by (auto intro: frame_trans)
qed

lemma copy_entries_frame:
  assumes "nv \<le> next_view h" and "no \<le> next_overlay h"
    and "\<forall>p \<in> set vmemo. nv \<le> snd p" and "\<forall>p \<in> set omemo. no \<le> snd p"
    and "copy_entries h vmemo omemo es = (h', es')"
  shows "frame nv no h h' \<and> (\<forall>e \<in> set es'. no \<le> snd e) \<and> map fst es' = map fst es"
  using assms
proof (induction es arbitrary: h vmemo omemo h' es')
  case Nil
  then show ?case by (simp add: frame_refl)
next
  case (Cons e es)
  obtain k a where e: "e = (k, a)" by (cases e)
  obtain h1 vmemo1 omemo1 a1 where c1: "copy_overlay h vmemo omemo a = (h1, vmemo1, omemo1, a1)"
    by (cases "copy_overlay h vmemo omemo a")
  obtain h2 es2 where c2: "copy_entries h1 vmemo1 omemo1 es = (h2, es2)"
    by (cases "copy_entries h1 vmemo1 omemo1 es")
  from Cons.prems(5) e c1 c2 have eq: "h' = h2" "es' = (k, a1) # es2" by simp_all
  note f1 = copy_overlay_frame [OF Cons.prems(1,2,3,4) c1]
  from f1 have g1: "nv \<le> next_view h1" "no \<le> next_overlay h1" by (simp_all add: frame_def)
  from f1 have m1: "\<forall>p \<in> set vmemo1. nv \<le> snd p" "\<forall>p \<in> set omemo1. no \<le> snd p" by simp_all
  note f2 = Cons.IH [OF g1 m1 c2]
  from f1 f2 show ?case
    unfolding eq e by (auto intro: frame_trans)
qed

lemma deepcopy_frame:
  assumes "deepcopy h es = (h', es')"
  shows "frame (next_view h) (next_overlay h) h h'"
    and "\<forall>e \<in> set es'. next_overlay h \<le> snd e" and "map fst es' = map fst es"
  using copy_entries_frame [of "next_view h" h "next_overlay h" "[]" "[]" es h' es'] assms
  by (simp_all add: deepcopy_def)


lemma collapse_loop_frame:
  assumes "nv \<le> next_view h" and "no \<le> next_overlay h"
  shows "frame nv no h (fst (collapse_loop fn pat key ov idx h skip acc))"
  using assms
proof (induction idx arbitrary: h skip acc)
  case Nil
  then show ?case by (simp add: frame_refl)
next
  case (Cons i idx)
  let ?ll = "take (length pat) (drop i (labels h ov))"
  let ?m = "list_all (\<lambda>(l, p). endswith l p) (zip ?ll pat) \<and> length ?ll = length pat"
  show ?case
  proof (cases ?m)
    case False
    then consider "\<not> list_all (\<lambda>(l, p). endswith l p) (zip ?ll pat)"
      | "list_all (\<lambda>(l, p). endswith l p) (zip ?ll pat)" "length ?ll \<noteq> length pat"
      by blast
    then have "collapse_loop fn pat key ov (i # idx) h skip acc =
        (if skip \<noteq> 0 then collapse_loop fn pat key ov idx h (skip - 1) acc
         else collapse_loop fn pat key ov idx h skip (acc @ [co_data (overlays h ov) ! i]))"
      by cases (simp_all only: collapse_loop.simps Let_def simp_thms if_False)
    with Cons.IH [OF Cons.prems] show ?thesis by simp
  next
    case True
    then have A: "list_all (\<lambda>(l, p). endswith l p) (zip ?ll pat)"
      and B: "length ?ll = length pat" by blast+
    show ?thesis
    proof (cases "those_items (map (getitem_label h ov) ?ll)")
      case None
      with A B have "collapse_loop fn pat key ov (i # idx) h skip acc = (h, Inl KeyError)"
        by (simp add: Let_def)
      with Cons.prems show ?thesis by (simp add: frame_refl)
    next
      case (Some vs)
      obtain h1 sl where no1: "new_overlay h \<lparr>co_label = [], co_bounds = co_bounds (overlays h ov),
                                     co_data = vs\<rparr> = (h1, sl)"
        by (cases "new_overlay h \<lparr>co_label = [], co_bounds = co_bounds (overlays h ov), co_data = vs\<rparr>")
      note f1 = frame_new_overlay(1) [OF Cons.prems no1]
      then have g1: "nv \<le> next_view h1" "no \<le> next_overlay h1" by (simp_all add: frame_def)
      let ?bad = "list_ex (\<lambda>v. lbrt (cv_bounds (views h1 v))
                                       \<noteq> lbrt (co_bounds (overlays h1 sl))) vs"
      show ?thesis
      proof (cases ?bad)
        case True
        with A B Some no1 have "fst (collapse_loop fn pat key ov (i # idx) h skip acc) = h1"
          by (simp add: Let_def)
        with f1 show ?thesis by simp
      next
        case False
        note good = this
        show ?thesis
        proof (cases "fn (map (views h1) vs)")
          case (Inl e)
          with A B Some no1 good have "fst (collapse_loop fn pat key ov (i # idx) h skip acc) = h1"
            by (simp add: Let_def)
          with f1 show ?thesis by simp
        next
          case (Inr made)
          obtain h2 cv where nv2: "new_view h1 made = (h2, cv)" by (cases "new_view h1 made")
          note f2 = frame_new_view [OF g1 nv2]
          from f2(1) have g2: "nv \<le> next_view h2" "no \<le> next_overlay h2"
            by (simp_all add: frame_def)
          let ?h3 = "h2\<lparr>views := (views h2)(cv := (views h2 cv)\<lparr>cv_style := key\<rparr>)\<rparr>"
          have f3: "frame nv no h2 ?h3"
            using g2 f2(2) by (rule frame_set_view)
          then have g3: "nv \<le> next_view ?h3" "no \<le> next_overlay ?h3"
            by (simp_all add: frame_def)
          have "collapse_loop fn pat key ov (i # idx) h skip acc =
              collapse_loop fn pat key ov idx ?h3 (length vs - 1) (acc @ [cv])"
            using A B Some no1 good Inr nv2 by (simp add: Let_def)
          moreover have "frame nv no ?h3 (fst (collapse_loop fn pat key ov idx ?h3 (length vs - 1) (acc @ [cv])))"
            by (rule Cons.IH [OF g3])
          ultimately show ?thesis
            using f1 f2(1) f3 by (metis frame_trans)
        qed
      qed
    qed
  qed
qed

lemma collapse_frame:
  assumes "nv \<le> next_view h" and "no \<le> next_overlay h" and "no \<le> ov"
  shows "frame nv no h (fst (collapse h ov pattern fn key))"
proof -
  let ?pat = "map strip (split_on (CHR ''*'') pattern)"
  let ?r = "collapse_loop fn ?pat key ov [0 ..< length (co_data (overlays h ov))] h 0 []"
  have f: "frame nv no h (fst ?r)"
    using assms(1,2) by (rule collapse_loop_frame)
  show ?thesis
  proof (cases "length ?pat > length (co_data (overlays h ov))")
    case True
    with assms show ?thesis by (simp add: collapse_def frame_refl)
  next
    case False
    obtain h1 r where r: "?r = (h1, r)" by (cases ?r)
    with f have f1: "frame nv no h h1" by simp
    then have g1: "nv \<le> next_view h1" "no \<le> next_overlay h1" by (simp_all add: frame_def)
    show ?thesis
    proof (cases r)
      case (Inl e)
      with False r f1 show ?thesis by (simp add: collapse_def)
    next
      case (Inr cvs)
      have "frame nv no h1 (h1\<lparr>overlays := (overlays h1)(ov := (overlays h1 ov)\<lparr>co_data := cvs\<rparr>)\<rparr>)"
        using g1 assms(3) by (rule frame_set_overlay)
      with f1 have "frame nv no h (h1\<lparr>overlays := (overlays h1)(ov := (overlays h1 ov)\<lparr>co_data := cvs\<rparr>)\<rparr>)"
        by (rule frame_trans)
      with False r Inr show ?thesis by (simp add: collapse_def)
    qed
  qed
qed

lemma keys_loop_frame:
  assumes "nv \<le> next_view h" and "no \<le> next_overlay h" and "no \<le> ov"
  shows "frame nv no h (fst (keys_loop reg ov ks h))"
  using assms
proof (induction ks arbitrary: h)
  case Nil
  then show ?case by (simp add: frame_refl)
next
  case (Cons k ks)
  obtain h1 r where c: "collapse h ov (reg_pattern reg k) (reg_fn reg k) k = (h1, r)"
    by (cases "collapse h ov (reg_pattern reg k) (reg_fn reg k) k")
  from collapse_frame [OF Cons.prems, of "reg_pattern reg k" "reg_fn reg k" k] c
  have f1: "frame nv no h h1" by simp
  then have g1: "nv \<le> next_view h1" "no \<le> next_overlay h1" by (simp_all add: frame_def)
  show ?case
  proof (cases r)
    case None
    from Cons.IH [OF g1 Cons.prems(3)] f1 c None show ?thesis
      by (auto intro: frame_trans)
  next
    case (Some e)
    with c f1 show ?thesis by simp
  qed
qed

lemma overlays_loop_frame:
  assumes "nv \<le> next_view h" and "no \<le> next_overlay h" and "\<forall>ov \<in> set ovs. no \<le> ov"
  shows "frame nv no h (fst (overlays_loop reg ovs h))"
  using assms
proof (induction ovs arbitrary: h)
  case Nil
  then show ?case by (simp add: frame_refl)
next
  case (Cons ov ovs)
  let ?ks = "sort_key (\<lambda>k. - int (reg_size reg k))
               (filter (\<lambda>k. co_label (overlays h ov) \<noteq> [] \<and> startswith k (co_label (overlays h ov)))
                  (reg_keys reg))
             @ sort_key (\<lambda>k. - int (reg_size reg k)) (reg_options reg)"
  obtain h1 r where c: "keys_loop reg ov ?ks h = (h1, r)" by (cases "keys_loop reg ov ?ks h")
  from Cons.prems(3) have o: "no \<le> ov" by simp
  from keys_loop_frame [OF Cons.prems(1,2) o, of reg ?ks] c
  have f1: "frame nv no h h1" by simp
  then have g1: "nv \<le> next_view h1" "no \<le> next_overlay h1" by (simp_all add: frame_def)
  from Cons.prems(3) have rest: "\<forall>ov \<in> set ovs. no \<le> ov" by simp
  show ?case
  proof (cases r)
    case None
    from Cons.IH [OF g1 rest] f1 c None show ?thesis
      by (auto simp: Let_def intro: frame_trans)
  next
    case (Some e)
    with c f1 show ?thesis by (simp add: Let_def)
  qed
qed

lemma collapse_channels_frame:
  "frame (next_view h) (next_overlay h) h (fst (collapse_channels reg h st))"
proof (cases st)
  case (ViewStack es)
  then show ?thesis by (simp add: collapse_channels_def frame_refl)
next
  case (OverlayStack es)
  show ?thesis
  proof (cases "es = [] \<or> reg_keys reg = []")
    case True
    with OverlayStack show ?thesis by (auto simp: collapse_channels_def frame_refl)
  next
    case False
    obtain h1 es' where d: "deepcopy h es = (h1, es')" by (cases "deepcopy h es")
    note dc = deepcopy_frame [OF d]
    from dc(1) have g1: "next_view h \<le> next_view h1" "next_overlay h \<le> next_overlay h1"
      by (simp_all add: frame_def)
    from dc(2) have fresh: "\<forall>ov \<in> set (map snd es'). next_overlay h \<le> ov" by simp
    obtain h2 r where l: "overlays_loop reg (map snd es') h1 = (h2, r)"
      by (cases "overlays_loop reg (map snd es') h1")
    from overlays_loop_frame [OF g1 fresh, of reg] l
    have "frame (next_view h) (next_overlay h) h1 h2" by simp
    with dc(1) have "frame (next_view h) (next_overlay h) h h2" by (rule frame_trans)
    with False OverlayStack d l show ?thesis
      by (cases r) (simp_all add: collapse_channels_def)
  qed
qed


lemma collapse_channels_no_keys:
  assumes "reg_keys reg = []" and "st \<noteq> OverlayStack []" and "st \<noteq> ViewStack []"
  shows "collapse_channels reg h st = (h, Inr st)"
  using assms by (cases st) (simp_all add: collapse_channels_def)

lemma collapse_channels_copy:
  assumes "collapse_channels reg h (OverlayStack es) = (h', Inr (OverlayStack es'))"
    and "reg_keys reg \<noteq> []"
  shows "(\<forall>e \<in> set es'. next_overlay h \<le> snd e) \<and> map fst es' = map fst es"
proof -
  obtain h1 es1 where d: "deepcopy h es = (h1, es1)" by (cases "deepcopy h es")
  obtain h2 r where l: "overlays_loop reg (map snd es1) h1 = (h2, r)"
    by (cases "overlays_loop reg (map snd es1) h1")
  from assms have ne: "es \<noteq> []"
    by (auto simp: collapse_channels_def)
  from assms ne d l have "es' = es1"
    by (cases r) (simp_all add: collapse_channels_def)
  with deepcopy_frame(2,3) [OF d] show ?thesis by simp
qed

lemma collapse_channels_run:
  assumes "es \<noteq> []" and "reg_keys reg \<noteq> []" and "deepcopy h es = (h1, es')"
    and "overlays_loop reg (map snd es') h1 = (h2, None)"
  shows "collapse_channels reg h (OverlayStack es) = (h2, Inr (OverlayStack es'))"
  using assms by (simp add: collapse_channels_def)

text \<open>
  Claim C5. The channel reduction never changes an object that existed before it:
  every view and overlay of the store, those of the input stack among them, is the same
  afterwards, whether the step returns or raises. Without registered channel
  operations it returns the very stack it was given and leaves the store as it was.
  With registered operations the stack it returns has the keys of the input and
  consists of overlay objects created by the step, so the in-place replacement of
  layers works on the copy.
\<close>

theorem collapse_channels_input_unchanged:
  "unchanged h (fst (collapse_channels reg h st))
   \<and> (reg_keys reg = [] \<and> st \<noteq> OverlayStack [] \<and> st \<noteq> ViewStack []
        \<longrightarrow> collapse_channels reg h st = (h, Inr st))
   \<and> (\<forall>es es' h'. reg_keys reg \<noteq> [] \<and> st = OverlayStack es
          \<and> collapse_channels reg h st = (h', Inr (OverlayStack es'))
        \<longrightarrow> (\<forall>e \<in> set es'. next_overlay h \<le> snd e) \<and> map fst es' = map fst es)"
proof -
  have "unchanged h (fst (collapse_channels reg h st))"
    using collapse_channels_frame [of h reg st] by (simp add: unchanged_def frame_def)
  moreover have "reg_keys reg = [] \<and> st \<noteq> OverlayStack [] \<and> st \<noteq> ViewStack []
        \<longrightarrow> collapse_channels reg h st = (h, Inr st)"
    using collapse_channels_no_keys by blast
  moreover have "(\<forall>e \<in> set es'. next_overlay h \<le> snd e) \<and> map fst es' = map fst es"
    if "reg_keys reg \<noteq> [] \<and> st = OverlayStack es
          \<and> collapse_channels reg h st = (h', Inr (OverlayStack es'))" for es es' h'
  proof -
    from that have a: "collapse_channels reg h (OverlayStack es) = (h', Inr (OverlayStack es'))"
      and b: "reg_keys reg \<noteq> []" by auto
    from collapse_channels_copy [OF a b] show ?thesis .
  qed
  ultimately show ?thesis by blast
qed

theorem collapse_channels_input_unchanged_witness:
  "collapse_channels
     \<lparr>reg_keys = [''RG''], reg_options = [''RG''], reg_size = (\<lambda>k. 2),
     reg_pattern = (\<lambda>k. ''R * G''), reg_fn = (\<lambda>k vs. Inr
     \<lparr>cv_label = ''R'', cv_style = [], cv_bounds = BoundingBox (0, 0, 1, 1),
     cv_data = [[1]]\<rparr>)\<rparr>
     \<lparr>views = (\<lambda>a. \<lparr>cv_label = ''R'', cv_style = [], cv_bounds =
       BoundingBox (0, 0, 1, 1), cv_data = [[1]]\<rparr>)(3 := \<lparr>cv_label = ''G'',
       cv_style = [], cv_bounds = BoundingBox (0, 0, 1, 1), cv_data = [[2]]\<rparr>),
       overlays = (\<lambda>a. \<lparr>co_label = [], co_bounds = BoundingBox (0, 0, 1,
       1), co_data = [2, 3]\<rparr>), next_view = 4, next_overlay = 3\<rparr>
     (OverlayStack [(0 :: nat, 2)])
   = (\<lparr>views = (\<lambda>a. \<lparr>cv_label = ''R'', cv_style = [], cv_bounds =
       BoundingBox (0, 0, 1, 1), cv_data = [[1]]\<rparr>)(3 := \<lparr>cv_label = ''G'',
       cv_style = [], cv_bounds = BoundingBox (0, 0, 1, 1), cv_data = [[2]]\<rparr>, 4
       := \<lparr>cv_label = ''R'', cv_style = [], cv_bounds = BoundingBox (0, 0, 1, 1),
       cv_data = [[1]]\<rparr>, 5 := \<lparr>cv_label = ''G'', cv_style = [], cv_bounds
       = BoundingBox (0, 0, 1, 1), cv_data = [[2]]\<rparr>, 6 := \<lparr>cv_label =
       ''R'', cv_style = ''RG'', cv_bounds = BoundingBox (0, 0, 1, 1), cv_data =
       [[1]]\<rparr>), overlays = (\<lambda>a. \<lparr>co_label = [], co_bounds =
       BoundingBox (0, 0, 1, 1), co_data = [2, 3]\<rparr>)(4 := \<lparr>co_label = [],
       co_bounds = BoundingBox (0, 0, 1, 1), co_data = [4, 5]\<rparr>, 3 :=
       \<lparr>co_label = [], co_bounds = BoundingBox (0, 0, 1, 1), co_data =
       [6]\<rparr>), next_view = 7, next_overlay = 5\<rparr>,
      Inr (OverlayStack [(0, 3)]))
   \<and> views
       \<lparr>views = (\<lambda>a. \<lparr>cv_label = ''R'', cv_style = [], cv_bounds =
       BoundingBox (0, 0, 1, 1), cv_data = [[1]]\<rparr>)(3 := \<lparr>cv_label = ''G'',
       cv_style = [], cv_bounds = BoundingBox (0, 0, 1, 1), cv_data = [[2]]\<rparr>, 4
       := \<lparr>cv_label = ''R'', cv_style = [], cv_bounds = BoundingBox (0, 0, 1, 1),
       cv_data = [[1]]\<rparr>, 5 := \<lparr>cv_label = ''G'', cv_style = [], cv_bounds
       = BoundingBox (0, 0, 1, 1), cv_data = [[2]]\<rparr>, 6 := \<lparr>cv_label =
       ''R'', cv_style = ''RG'', cv_bounds = BoundingBox (0, 0, 1, 1), cv_data =
       [[1]]\<rparr>), overlays = (\<lambda>a. \<lparr>co_label = [], co_bounds =
       BoundingBox (0, 0, 1, 1), co_data = [2, 3]\<rparr>)(4 := \<lparr>co_label = [],
       co_bounds = BoundingBox (0, 0, 1, 1), co_data = [4, 5]\<rparr>, 3 :=
       \<lparr>co_label = [], co_bounds = BoundingBox (0, 0, 1, 1), co_data =
       [6]\<rparr>), next_view = 7, next_overlay = 5\<rparr> 2
     = \<lparr>cv_label = ''R'', cv_style = [], cv_bounds = BoundingBox (0, 0, 1, 1),
       cv_data = [[1]]\<rparr>
   \<and> views
       \<lparr>views = (\<lambda>a. \<lparr>cv_label = ''R'', cv_style = [], cv_bounds =
       BoundingBox (0, 0, 1, 1), cv_data = [[1]]\<rparr>)(3 := \<lparr>cv_label = ''G'',
       cv_style = [], cv_bounds = BoundingBox (0, 0, 1, 1), cv_data = [[2]]\<rparr>, 4
       := \<lparr>cv_label = ''R'', cv_style = [], cv_bounds = BoundingBox (0, 0, 1, 1),
       cv_data = [[1]]\<rparr>, 5 := \<lparr>cv_label = ''G'', cv_style = [], cv_bounds
       = BoundingBox (0, 0, 1, 1), cv_data = [[2]]\<rparr>, 6 := \<lparr>cv_label =
       ''R'', cv_style = ''RG'', cv_bounds = BoundingBox (0, 0, 1, 1), cv_data =
       [[1]]\<rparr>), overlays = (\<lambda>a. \<lparr>co_label = [], co_bounds =
       BoundingBox (0, 0, 1, 1), co_data = [2, 3]\<rparr>)(4 := \<lparr>co_label = [],
       co_bounds = BoundingBox (0, 0, 1, 1), co_data = [4, 5]\<rparr>, 3 :=
       \<lparr>co_label = [], co_bounds = BoundingBox (0, 0, 1, 1), co_data =
       [6]\<rparr>), next_view = 7, next_overlay = 5\<rparr> 3
     = \<lparr>cv_label = ''G'', cv_style = [], cv_bounds = BoundingBox (0, 0, 1, 1),
       cv_data = [[2]]\<rparr>
   \<and> overlays
       \<lparr>views = (\<lambda>a. \<lparr>cv_label = ''R'', cv_style = [], cv_bounds =
       BoundingBox (0, 0, 1, 1), cv_data = [[1]]\<rparr>)(3 := \<lparr>cv_label = ''G'',
       cv_style = [], cv_bounds = BoundingBox (0, 0, 1, 1), cv_data = [[2]]\<rparr>, 4
       := \<lparr>cv_label = ''R'', cv_style = [], cv_bounds = BoundingBox (0, 0, 1, 1),
       cv_data = [[1]]\<rparr>, 5 := \<lparr>cv_label = ''G'', cv_style = [], cv_bounds
       = BoundingBox (0, 0, 1, 1), cv_data = [[2]]\<rparr>, 6 := \<lparr>cv_label =
       ''R'', cv_style = ''RG'', cv_bounds = BoundingBox (0, 0, 1, 1), cv_data =
       [[1]]\<rparr>), overlays = (\<lambda>a. \<lparr>co_label = [], co_bounds =
       BoundingBox (0, 0, 1, 1), co_data = [2, 3]\<rparr>)(4 := \<lparr>co_label = [],
       co_bounds = BoundingBox (0, 0, 1, 1), co_data = [4, 5]\<rparr>, 3 :=
       \<lparr>co_label = [], co_bounds = BoundingBox (0, 0, 1, 1), co_data =
       [6]\<rparr>), next_view = 7, next_overlay = 5\<rparr> 2
     = \<lparr>co_label = [], co_bounds = BoundingBox (0, 0, 1, 1), co_data = [2,
       3]\<rparr>
   \<and> next_overlay
       \<lparr>views = (\<lambda>a. \<lparr>cv_label = ''R'', cv_style = [], cv_bounds =
       BoundingBox (0, 0, 1, 1), cv_data = [[1]]\<rparr>)(3 := \<lparr>cv_label = ''G'',
       cv_style = [], cv_bounds = BoundingBox (0, 0, 1, 1), cv_data = [[2]]\<rparr>),
       overlays = (\<lambda>a. \<lparr>co_label = [], co_bounds = BoundingBox (0, 0, 1,
       1), co_data = [2, 3]\<rparr>), next_view = 4, next_overlay = 3\<rparr> \<le> 3
   \<and> collapse_channels
       \<lparr>reg_keys = [], reg_options = [''RG''], reg_size = (\<lambda>k. 2),
       reg_pattern = (\<lambda>k. ''R * G''), reg_fn = (\<lambda>k vs. Inr
       \<lparr>cv_label = ''R'', cv_style = [], cv_bounds = BoundingBox (0, 0, 1, 1),
       cv_data = [[1]]\<rparr>)\<rparr>
       \<lparr>views = (\<lambda>a. \<lparr>cv_label = ''R'', cv_style = [], cv_bounds =
       BoundingBox (0, 0, 1, 1), cv_data = [[1]]\<rparr>)(3 := \<lparr>cv_label = ''G'',
       cv_style = [], cv_bounds = BoundingBox (0, 0, 1, 1), cv_data = [[2]]\<rparr>),
       overlays = (\<lambda>a. \<lparr>co_label = [], co_bounds = BoundingBox (0, 0, 1,
       1), co_data = [2, 3]\<rparr>), next_view = 4, next_overlay = 3\<rparr>
       (OverlayStack [(0 :: nat, 2)])
     = (\<lparr>views = (\<lambda>a. \<lparr>cv_label = ''R'', cv_style = [], cv_bounds =
       BoundingBox (0, 0, 1, 1), cv_data = [[1]]\<rparr>)(3 := \<lparr>cv_label = ''G'',
       cv_style = [], cv_bounds = BoundingBox (0, 0, 1, 1), cv_data = [[2]]\<rparr>),
       overlays = (\<lambda>a. \<lparr>co_label = [], co_bounds = BoundingBox (0, 0, 1,
       1), co_data = [2, 3]\<rparr>), next_view = 4, next_overlay = 3\<rparr>,
        Inr (OverlayStack [(0, 2)]))"
proof -
  define vR where "vR = \<lparr>cv_label = ''R'', cv_style = [], cv_bounds = BoundingBox (0, 0, 1, 1),
       cv_data = [[1]]\<rparr>"
  define vG where "vG = \<lparr>cv_label = ''G'', cv_style = [], cv_bounds = BoundingBox (0, 0, 1, 1),
       cv_data = [[2]]\<rparr>"
  define o0 where "o0 = \<lparr>co_label = [], co_bounds = BoundingBox (0, 0, 1, 1), co_data = [2,
       3]\<rparr>"
  define h0 where "h0 = \<lparr>views = (\<lambda>a. vR)(3 := vG), overlays = (\<lambda>a. o0), next_view = 4,
    next_overlay = 3\<rparr>"
  define reg0 where "reg0 = \<lparr>reg_keys = [''RG''], reg_options = [''RG''], reg_size = (\<lambda>k. 2),
    reg_pattern = (\<lambda>k. ''R * G''), reg_fn = (\<lambda>k vs. Inr vR)\<rparr>"
  define regn where "regn = \<lparr>reg_keys = [], reg_options = [''RG''], reg_size = (\<lambda>k. 2),
    reg_pattern = (\<lambda>k. ''R * G''), reg_fn = (\<lambda>k vs. Inr vR)\<rparr>"
  define h1 where "h1 = \<lparr>views = (\<lambda>a. vR)(3 := vG, 4 := vR, 5 := vG),
    overlays = (\<lambda>a. o0)(3 := o0\<lparr>co_data := [4, 5]\<rparr>), next_view = 6, next_overlay = 4\<rparr>"
  define h2 where "h2 = \<lparr>views = (\<lambda>a. vR)(3 := vG, 4 := vR, 5 := vG, 6 := vR\<lparr>cv_style := ''RG''\<rparr>),
    overlays = (\<lambda>a. o0)(3 := o0\<lparr>co_data := [4, 5]\<rparr>, 4 := o0\<lparr>co_data := [4, 5]\<rparr>),
    next_view = 7, next_overlay = 5\<rparr>"
  define h3 where "h3 = \<lparr>views = (\<lambda>a. vR)(3 := vG, 4 := vR, 5 := vG, 6 := vR\<lparr>cv_style := ''RG''\<rparr>),
    overlays = (\<lambda>a. o0)(4 := o0\<lparr>co_data := [4, 5]\<rparr>, 3 := o0\<lparr>co_data := [6]\<rparr>),
    next_view = 7, next_overlay = 5\<rparr>"
  have pat: "map strip (split_on (CHR ''*'') ''R * G'') = [''R'', ''G'']"
    by (simp add: strip_def is_space_def)
  have d1: "deepcopy h0 [(0::nat, 2)] = (h1, [(0, 3)])"
    by (simp add: deepcopy_def copy_overlay_def copy_view_def new_view_def new_overlay_def
        h0_def o0_def h1_def)
  have lab: "labels h1 3 = [''R'', ''G'']" "co_data (overlays h1 3) = [4, 5]"
    "co_label (overlays h1 3) = []" "co_bounds (overlays h1 3) = BoundingBox (0, 0, 1, 1)"
    by (simp_all add: labels_def h1_def o0_def vR_def vG_def)
  have gl: "getitem_label h1 3 ''R'' = Some 4" "getitem_label h1 3 ''G'' = Some 5"
    by (simp_all add: getitem_label_def h1_def o0_def vR_def vG_def)
  have no: "new_overlay h1 \<lparr>co_label = [], co_bounds = BoundingBox (0, 0, 1, 1), co_data = [4, 5]\<rparr>
     = (h1\<lparr>overlays := (overlays h1)(4 := o0\<lparr>co_data := [4, 5]\<rparr>), next_overlay := 5\<rparr>, 4)"
    by (simp add: new_overlay_def h1_def o0_def)
  have cl: "collapse_loop (\<lambda>vs. Inr vR) [''R'', ''G''] ''RG'' 3 [0, 1] h1 0 [] = (h2, Inr [6])"
    by (simp add: lab gl endswith_def Let_def no del: One_nat_def)
      (simp add: new_overlay_def new_view_def h1_def h2_def o0_def vR_def vG_def labels_def
        del: One_nat_def)
  have up: "[0 ..< 2] = [0, 1]" by (simp add: upt_rec)
  have len: "length (co_data (overlays h1 3)) = 2" by (simp add: lab)
  have co: "collapse h1 3 ''R * G'' (\<lambda>vs. Inr vR) ''RG'' = (h3, None)"
    unfolding collapse_def pat len up cl Let_def by (simp add: h2_def h3_def)
  have kl: "keys_loop reg0 3 [''RG''] h1 = (h3, None)"
    by (simp add: reg0_def co)
  have ol: "overlays_loop reg0 [3] h1 = (h3, None)"
    using kl by (simp add: lab Let_def) (simp add: reg0_def)
  have k0: "reg_keys reg0 \<noteq> []" by (simp add: reg0_def)
  have ol': "overlays_loop reg0 (map snd [(0 :: nat, 3 :: nat)]) h1 = (h3, None)"
    using ol by simp
  have run: "collapse_channels reg0 h0 (OverlayStack [(0 :: nat, 2)]) = (h3, Inr (OverlayStack [(0, 3)]))"
    by (rule collapse_channels_run [OF _ k0 d1 ol']) simp
  note t = collapse_channels_input_unchanged [of h0 reg0 "OverlayStack [(0 :: nat, 2)]"]
  from t have "unchanged h0 (fst (collapse_channels reg0 h0 (OverlayStack [(0 :: nat, 2)])))"
    by blast
  then have u: "unchanged h0 h3" by (simp only: run fst_conv)
  have nx: "next_view h0 = 4" "next_overlay h0 = 3" by (simp_all add: h0_def)
  from u have "views h3 2 = views h0 2" "views h3 3 = views h0 3" "overlays h3 2 = overlays h0 2"
    by (simp_all add: unchanged_def nx)
  then have keep: "views h3 2 = vR" "views h3 3 = vG" "overlays h3 2 = o0"
    by (simp_all add: h0_def)
  from t k0 run have "\<forall>e \<in> set [(0 :: nat, 3 :: nat)]. next_overlay h0 \<le> snd e"
    by blast
  then have fresh: "next_overlay h0 \<le> 3" by simp
  note t2 = collapse_channels_input_unchanged [of h0 regn "OverlayStack [(0 :: nat, 2)]"]
  have "reg_keys regn = []" by (simp add: regn_def)
  with t2 have none: "collapse_channels regn h0 (OverlayStack [(0 :: nat, 2)])
      = (h0, Inr (OverlayStack [(0, 2)]))"
    by simp
  have e3: "h3 = \<lparr>views = (\<lambda>a. vR)(3 := vG, 4 := vR, 5 := vG, 6 := \<lparr>cv_label
      = ''R'', cv_style = ''RG'', cv_bounds = BoundingBox (0, 0, 1, 1), cv_data =
      [[1]]\<rparr>), overlays = (\<lambda>a. o0)(4 := \<lparr>co_label = [], co_bounds
      = BoundingBox (0, 0, 1, 1), co_data = [4, 5]\<rparr>, 3 := \<lparr>co_label = [],
      co_bounds = BoundingBox (0, 0, 1, 1), co_data = [6]\<rparr>), next_view = 7,
      next_overlay = 5\<rparr>"
    by (simp add: h3_def vR_def vG_def o0_def)
  from run keep fresh none
  have "collapse_channels reg0 h0 (OverlayStack [(0 :: nat, 2)]) = (h3, Inr (OverlayStack [(0, 3)]))
      \<and> views h3 2 = vR \<and> views h3 3 = vG \<and> overlays h3 2 = o0 \<and> next_overlay h0 \<le> 3
      \<and> collapse_channels regn h0 (OverlayStack [(0 :: nat, 2)]) = (h0, Inr (OverlayStack [(0, 2)]))"
    by blast
  then show ?thesis
    unfolding e3 unfolding h0_def reg0_def regn_def vR_def vG_def o0_def .
qed

end
